theory Spec2Isabelle
  imports Main "HOL-Library.AList" "HOL-Library.Word"
begin

unbundle bit_operations_syntax

section \<open>JavaScript values and objects\<close>

text \<open>
  The library handles values of type \<^verbatim>\<open>any\<close>: query arguments, variable bindings,
  result payloads, configured fixed arguments. They are modelled by \<open>jsval\<close>.

  \<^item> A number is \<open>JNum n\<close> when it is an integer of magnitude at most \<open>2^53\<close> (both zeroes
    are \<open>JNum 0\<close>), and \<open>JFloat w\<close>, the 64 bits of the IEEE-754 double, otherwise. No
    arithmetic is done on numbers by the library; the only thing it asks of a number is
    whether it is truthy.
  \<^item> An object is the list of its own enumerable string-keyed properties in the order
    \<^verbatim>\<open>Object.keys\<close> enumerates them. Property names are not array indices (a GraphQL
    name never is one), so that order is the order of creation.
  \<^item> \<open>JObj\<close> is an object nobody mutates after it was built, held by value; its prototype
    is \<^verbatim>\<open>Object.prototype\<close>. \<open>JObjProto p ps\<close> is such an object whose prototype was set
    to \<open>p\<close> by an assignment to \<^verbatim>\<open>__proto__\<close>. \<open>JRef a\<close> is a
    reference to the object at address \<open>a\<close> of the store; it is used for the result
    payload, which \<^verbatim>\<open>updateSubscriptionState\<close> mutates and which its caller shares.
  \<^item> \<open>JBuiltin path\<close> is a built-in object or function of the engine, named by its path:
    \<^verbatim>\<open>Object.prototype\<close>, \<^verbatim>\<open>Object.prototype.toString\<close>.
\<close>

type_synonym addr = nat

datatype jsval =
    JUndefined
  | JNull
  | JBool bool
  | JNum int
  | JFloat "64 word"
  | JStr string
  | JArr "jsval list"
  | JObj "(string \<times> jsval) list"
  | JRef addr
  | JBuiltin string
  | JObjProto jsval "(string \<times> jsval) list"

type_synonym object = "(string \<times> jsval) list"

type_synonym store = "object list"

text \<open>A double is falsy when it is a zero or a NaN.\<close>

definition truthy_double :: "64 word \<Rightarrow> bool" where
  "truthy_double w =
     (let m = w AND 0x7FFFFFFFFFFFFFFF in m \<noteq> 0 \<and> m \<le> 0x7FF0000000000000)"

fun truthy :: "jsval \<Rightarrow> bool" where
  "truthy JUndefined = False"
| "truthy JNull = False"
| "truthy (JBool b) = b"
| "truthy (JNum n) = (n \<noteq> 0)"
| "truthy (JFloat w) = truthy_double w"
| "truthy (JStr s) = (s \<noteq> [])"
| "truthy (JArr vs) = True"
| "truthy (JObj ps) = True"
| "truthy (JRef a) = True"
| "truthy (JBuiltin b) = True"
| "truthy (JObjProto p ps) = True"

text \<open>The own properties of an object: reading one (\<^verbatim>\<open>undefined\<close> when there is none),
  testing for one, writing one and deleting one. Writing a property that exists keeps its
  place in the enumeration order; a new property comes last.\<close>

definition obj_get :: "object \<Rightarrow> string \<Rightarrow> jsval" where
  "obj_get ps k = (case map_of ps k of None \<Rightarrow> JUndefined | Some v \<Rightarrow> v)"

definition obj_has :: "object \<Rightarrow> string \<Rightarrow> bool" where
  "obj_has ps k = (map_of ps k \<noteq> None)"

definition obj_set :: "object \<Rightarrow> string \<Rightarrow> jsval \<Rightarrow> object" where
  "obj_set ps k v = AList.update k v ps"

definition obj_delete :: "object \<Rightarrow> string \<Rightarrow> object" where
  "obj_delete ps k = AList.delete k ps"

text \<open>The truthiness of an optional string: \<^verbatim>\<open>undefined\<close> and \<^verbatim>\<open>''\<close> are falsy.\<close>

fun truthy_str :: "string option \<Rightarrow> bool" where
  "truthy_str None = False"
| "truthy_str (Some s) = (s \<noteq> [])"

section \<open>The GraphQL syntax tree\<close>

text \<open>
  The document that \<^verbatim>\<open>parse\<close> of the \<^verbatim>\<open>graphql\<close> package returns, restricted to the
  nodes and attributes that \<^verbatim>\<open>src/lib/graphql-tools.ts\<close> reads. \<open>EnumValue\<close> is the one
  value kind of the package that the switch of \<^verbatim>\<open>extractArgumentValue\<close> does not name.
\<close>

datatype value_node =
    IntValue string
  | FloatValue string
  | StringValue string
  | BooleanValue bool
  | NullValue
  | EnumValue string
  | ListValue "value_node list"
  | ObjectValue "(string \<times> value_node) list"
  | Variable string

datatype selection =
    Field "string option" string "(string \<times> value_node) list" "selection list option"
  | FragmentSpread string
  | InlineFragment "selection list"

datatype operation_type = Query | Mutation | Subscription

datatype definition_node =
    OperationDefinition operation_type "selection list"
  | FragmentDefinition string "selection list"
  | OtherDefinition

type_synonym document = "definition_node list"

datatype js_error =
    GraphQLError
  | TypeError
  | RangeError
  | Error string js_error

section \<open>The host\<close>

text \<open>
  What the library calls and does not define: \<^verbatim>\<open>parse\<close> of the \<^verbatim>\<open>graphql\<close> package
  (\<open>None\<close> when it throws its syntax error), the built-ins \<^verbatim>\<open>parseFloat\<close> and
  \<^verbatim>\<open>JSON.stringify\<close> (the text a template literal makes of its result), and the number of
  nested calls of \<^verbatim>\<open>extractFields\<close> the call stack has room for (the recursion over an
  argument value follows the value and always ends; it is given all the room it needs).
  The built-in objects are the host's too. \<open>builtin_get v k\<close> is \<^verbatim>\<open>v[k]\<close> for a value
  \<open>v\<close> that is not a plain object: \<^verbatim>\<open>Object.prototype\<close>, an array, a function.
  \<open>assign_blocked v k\<close> says whether an object that has \<open>v\<close> on its prototype chain is
  refused a new property \<open>k\<close>, because \<open>v\<close> has or inherits a property of that name that is
  read-only or has a throwing setter (\<^verbatim>\<open>name\<close> and \<^verbatim>\<open>caller\<close> of a function).
  Every theorem below that names a host \<open>h\<close> holds for every host.
\<close>

record host =
  parse :: "string \<Rightarrow> document option"
  parseFloat :: "string \<Rightarrow> jsval"
  JSON_stringify :: "jsval \<Rightarrow> string"
  stack :: nat
  builtin_get :: "jsval \<Rightarrow> string \<Rightarrow> jsval"
  assign_blocked :: "jsval \<Rightarrow> string \<Rightarrow> bool"

section \<open>Properties of the objects the library builds and is given\<close>

text \<open>
  The variables of a registration and the objects that the introspector builds from
  arguments are plain objects: what they do not have themselves they inherit. \<open>js_get\<close> is
  \<^verbatim>\<open>obj[k]\<close>. \<open>chain_get h rp link k\<close> looks \<open>k\<close> up from the object \<open>link\<close> upwards, for a
  receiver whose prototype is \<open>rp\<close>: an own property of \<open>link\<close> is the answer; a plain object
  hands over to \<^verbatim>\<open>Object.prototype\<close>, an object with a set prototype to that prototype;
  the prototype \<^verbatim>\<open>null\<close> ends the search. The name \<^verbatim>\<open>__proto__\<close> reaches the accessor
  of \<^verbatim>\<open>Object.prototype\<close>, which returns the prototype of the receiver.
\<close>

definition Object_prototype :: jsval where
  "Object_prototype = JBuiltin ''Object.prototype''"

fun chain_get :: "host \<Rightarrow> jsval \<Rightarrow> jsval \<Rightarrow> string \<Rightarrow> jsval" where
  "chain_get h rp JNull k = JUndefined"
| "chain_get h rp (JObj qs) k =
     (case map_of qs k of
        Some v \<Rightarrow> v
      | None \<Rightarrow> if k = ''__proto__'' then rp else builtin_get h Object_prototype k)"
| "chain_get h rp (JObjProto q qs) k =
     (case map_of qs k of
        Some v \<Rightarrow> v
      | None \<Rightarrow> chain_get h rp q k)"
| "chain_get h rp link k = (if k = ''__proto__'' then rp else builtin_get h link k)"

definition js_get :: "host \<Rightarrow> jsval \<Rightarrow> string \<Rightarrow> jsval" where
  "js_get h obj k =
     (case obj of
        JObj ps \<Rightarrow> chain_get h Object_prototype obj k
      | JObjProto p ps \<Rightarrow> chain_get h p obj k
      | _ \<Rightarrow> builtin_get h obj k)"

text \<open>\<^verbatim>\<open>k in variables\<close>, for the plain object \<open>variables\<close>: an own property, or one that
  \<^verbatim>\<open>Object.prototype\<close> has (none of its properties has the value \<^verbatim>\<open>undefined\<close>).\<close>

definition js_in :: "host \<Rightarrow> object \<Rightarrow> string \<Rightarrow> bool" where
  "js_in h ps k = (obj_has ps k \<or> js_get h (JObj ps) k \<noteq> JUndefined)"

text \<open>
  \<^verbatim>\<open>obj[k] = v\<close> in strict mode, on an object that the introspector is building.
  A property that the object has is overwritten. Otherwise the name \<^verbatim>\<open>__proto__\<close>, when
  the search for it reaches the accessor of \<^verbatim>\<open>Object.prototype\<close>, sets the prototype if
  \<open>v\<close> is an object or \<^verbatim>\<open>null\<close> and does nothing if not; it creates no property. Any
  other new name becomes an own property, unless the prototype chain blocks it, which
  throws a \<^verbatim>\<open>TypeError\<close>. The object under construction starts as \<^verbatim>\<open>{}\<close> and is
  never anything but a plain object or one with a set prototype.
\<close>

fun is_object :: "jsval \<Rightarrow> bool" where
  "is_object (JArr vs) = True"
| "is_object (JObj ps) = True"
| "is_object (JRef a) = True"
| "is_object (JBuiltin b) = True"
| "is_object (JObjProto p ps) = True"
| "is_object v = False"

fun setter_reachable :: "jsval \<Rightarrow> bool" where
  "setter_reachable JNull = False"
| "setter_reachable (JObj qs) = (map_of qs ''__proto__'' = None)"
| "setter_reachable (JObjProto q qs) = (map_of qs ''__proto__'' = None \<and> setter_reachable q)"
| "setter_reachable link = True"

fun blocked :: "host \<Rightarrow> jsval \<Rightarrow> string \<Rightarrow> bool" where
  "blocked h JNull k = False"
| "blocked h (JObj qs) k = False"
| "blocked h (JObjProto q qs) k = (map_of qs k = None \<and> blocked h q k)"
| "blocked h link k = assign_blocked h link k"

definition js_assign :: "host \<Rightarrow> jsval \<Rightarrow> string \<Rightarrow> jsval \<Rightarrow> js_error + jsval" where
  "js_assign h obj k v =
     (case obj of
        JObj ps \<Rightarrow>
          if obj_has ps k then Inr (JObj (obj_set ps k v))
          else if k = ''__proto__''
            then (if is_object v \<or> v = JNull then Inr (JObjProto v ps) else Inr obj)
          else Inr (JObj (obj_set ps k v))
      | JObjProto p ps \<Rightarrow>
          if obj_has ps k then Inr (JObjProto p (obj_set ps k v))
          else if k = ''__proto__'' \<and> setter_reachable p
            then (if is_object v \<or> v = JNull then Inr (JObjProto v ps) else Inr obj)
          else if blocked h p k then Inl TypeError
          else Inr (JObjProto p (obj_set ps k v))
      | _ \<Rightarrow> Inl TypeError)"

section \<open>The query introspector (\<^verbatim>\<open>src/lib/graphql-tools.ts\<close>, lines 1 to 174)\<close>

text \<open>
  \<^verbatim>\<open>parseInt(text, 10)\<close>: leading white space is skipped, a sign is read, then the
  longest prefix of decimal digits; without a digit the result is NaN. Beyond \<open>2^53\<close> the
  result is the nearest double, which is what \<^verbatim>\<open>parseFloat\<close> makes of the same text.
\<close>

definition is_space :: "char \<Rightarrow> bool" where
  "is_space c = (c \<in> set [CHR '' '', CHR 0x09, CHR 0x0A, CHR 0x0B, CHR 0x0C, CHR 0x0D])"

definition is_digit :: "char \<Rightarrow> bool" where
  "is_digit c = (48 \<le> (of_char c :: nat) \<and> (of_char c :: nat) \<le> 57)"

definition digits_value :: "string \<Rightarrow> int" where
  "digits_value ds = foldl (\<lambda>acc c. 10 * acc + (of_char c - 48)) 0 ds"

definition quiet_NaN :: jsval where
  "quiet_NaN = JFloat 0x7FF8000000000000"

definition parseInt10 :: "host \<Rightarrow> string \<Rightarrow> jsval" where
  "parseInt10 h s =
     (let t = dropWhile is_space s;
          neg = (case t of [] \<Rightarrow> False | c # _ \<Rightarrow> c = CHR ''-'');
          u = (case t of [] \<Rightarrow> [] | c # r \<Rightarrow> if c = CHR ''-'' \<or> c = CHR ''+'' then r else t);
          ds = takeWhile is_digit u;
          n = digits_value ds
      in if ds = [] then quiet_NaN
         else if n \<le> 2 ^ 53 then JNum (if neg then - n else n)
         else parseFloat h ((if neg then ''-'' else []) @ ds))"

text \<open>\<^verbatim>\<open>extractVariable\<close>, lines 172 to 174.\<close>

definition extractVariable :: "host \<Rightarrow> string \<Rightarrow> object \<Rightarrow> jsval" where
  "extractVariable h name variables =
     (if js_get h (JObj variables) name \<noteq> JUndefined then js_get h (JObj variables) name
      else JNull)"

text \<open>
  \<^verbatim>\<open>extractArgumentValue\<close> and \<^verbatim>\<open>extractObjectArguments\<close>, lines 76 to 105.
  \<open>extractArgumentValues\<close> is the \<^verbatim>\<open>map\<close> over the elements of a list literal.
  \<open>assign_fields\<close> is the loop of \<^verbatim>\<open>extractObjectArguments\<close>, which is also the loop of
  \<^verbatim>\<open>extractArguments\<close>: each value is resolved, then assigned to the object built so far.
\<close>

fun extractArgumentValue :: "host \<Rightarrow> value_node \<Rightarrow> object \<Rightarrow> js_error + jsval"
and extractArgumentValues :: "host \<Rightarrow> value_node list \<Rightarrow> object \<Rightarrow> js_error + jsval list"
and assign_fields ::
  "host \<Rightarrow> (string \<times> value_node) list \<Rightarrow> object \<Rightarrow> jsval \<Rightarrow> js_error + jsval"
where
  "extractArgumentValue h (IntValue s) variables = Inr (parseInt10 h s)"
| "extractArgumentValue h (FloatValue s) variables = Inr (parseFloat h s)"
| "extractArgumentValue h (StringValue s) variables = Inr (JStr s)"
| "extractArgumentValue h (BooleanValue b) variables = Inr (JBool b)"
| "extractArgumentValue h NullValue variables = Inr JNull"
| "extractArgumentValue h (ListValue vs) variables =
     (case extractArgumentValues h vs variables of
        Inl e \<Rightarrow> Inl e
      | Inr xs \<Rightarrow> Inr (JArr xs))"
| "extractArgumentValue h (ObjectValue fs) variables = assign_fields h fs variables (JObj [])"
| "extractArgumentValue h (Variable name) variables = Inr (extractVariable h name variables)"
| "extractArgumentValue h (EnumValue s) variables = Inr JNull"
| "extractArgumentValues h [] variables = Inr []"
| "extractArgumentValues h (val # vals) variables =
     (case extractArgumentValue h val variables of
        Inl e \<Rightarrow> Inl e
      | Inr x \<Rightarrow>
          (case extractArgumentValues h vals variables of
             Inl e \<Rightarrow> Inl e
           | Inr xs \<Rightarrow> Inr (x # xs)))"
| "assign_fields h [] variables obj = Inr obj"
| "assign_fields h (field # rest) variables obj =
     (case extractArgumentValue h (snd field) variables of
        Inl e \<Rightarrow> Inl e
      | Inr x \<Rightarrow>
          (case js_assign h obj (fst field) x of
             Inl e \<Rightarrow> Inl e
           | Inr obj' \<Rightarrow> assign_fields h rest variables obj'))"

definition extractObjectArguments ::
  "host \<Rightarrow> (string \<times> value_node) list \<Rightarrow> object \<Rightarrow> js_error + jsval" where
  "extractObjectArguments h fs variables = assign_fields h fs variables (JObj [])"

text \<open>\<^verbatim>\<open>extractArguments\<close>, lines 63 to 73.\<close>

definition extractArguments ::
  "host \<Rightarrow> (string \<times> value_node) list \<Rightarrow> object \<Rightarrow> js_error + jsval" where
  "extractArguments h args variables = assign_fields h args variables (JObj [])"

text \<open>
  \<^verbatim>\<open>extractFields\<close>, lines 108 to 151. A fragment may spread itself, so the recursion
  need not end: the first argument is the number of nested calls the stack still has room
  for, and a call made when there is none raises the engine's \<^verbatim>\<open>RangeError\<close>.
  \<open>extractSelections\<close> is the loop over the selections of one selection set.
\<close>

definition find_fragment :: "definition_node list \<Rightarrow> string \<Rightarrow> selection list option" where
  "find_fragment defs fragmentName =
     (case find (\<lambda>d. case d of FragmentDefinition n _ \<Rightarrow> n = fragmentName | _ \<Rightarrow> False) defs of
        Some (FragmentDefinition _ sels) \<Rightarrow> Some sels
      | _ \<Rightarrow> None)"

fun extractFields :: "nat \<Rightarrow> selection list option \<Rightarrow> definition_node list \<Rightarrow> js_error + string list"
and extractSelections :: "nat \<Rightarrow> selection list \<Rightarrow> definition_node list \<Rightarrow> js_error + string list"
where
  "extractFields 0 selectionSet defs = Inl RangeError"
| "extractFields (Suc n) None defs = Inr []"
| "extractFields (Suc n) (Some sels) defs = extractSelections n sels defs"
| "extractSelections n [] defs = Inr []"
| "extractSelections n (sel # rest) defs =
     (case (case sel of
              Field al nm args sub \<Rightarrow>
                if nm = ''__typename'' then Inr []
                else (case sub of
                        None \<Rightarrow> Inr [nm]
                      | Some nested \<Rightarrow> extractFields n (Some nested) defs)
            | FragmentSpread fragmentName \<Rightarrow>
                (case find_fragment defs fragmentName of
                   None \<Rightarrow> Inr []
                 | Some fsels \<Rightarrow> extractFields n (Some fsels) defs)
            | InlineFragment isels \<Rightarrow> extractFields n (Some isels) defs) of
        Inl e \<Rightarrow> Inl e
      | Inr fs \<Rightarrow>
          (case extractSelections n rest defs of
             Inl e \<Rightarrow> Inl e
           | Inr gs \<Rightarrow> Inr (fs @ gs)))"

text \<open>\<^verbatim>\<open>SubscriptionInfo\<close> and \<^verbatim>\<open>extractSubscriptionQueryInfo\<close>, lines 4 to 60.\<close>

record SubscriptionInfo =
  info_name :: string
  info_fields :: "string list"
  info_alias :: "string option"
  info_params :: jsval

definition is_subscription :: "definition_node \<Rightarrow> bool" where
  "is_subscription d = (case d of OperationDefinition Subscription _ \<Rightarrow> True | _ \<Rightarrow> False)"

definition is_fragment :: "definition_node \<Rightarrow> bool" where
  "is_fragment d = (case d of FragmentDefinition _ _ \<Rightarrow> True | _ \<Rightarrow> False)"

text \<open>The body of the \<^verbatim>\<open>try\<close> block; \<open>Inl\<close> is what it throws.\<close>

definition extractSubscriptionQueryInfo_body ::
  "host \<Rightarrow> string \<Rightarrow> object option \<Rightarrow> js_error + SubscriptionInfo option" where
  "extractSubscriptionQueryInfo_body h query variables =
     (case parse h query of
        None \<Rightarrow> Inl GraphQLError
      | Some doc \<Rightarrow>
          (case find is_subscription doc of
             Some (OperationDefinition _ selections) \<Rightarrow>
               (case selections of
                  [] \<Rightarrow> Inl TypeError
                | InlineFragment _ # _ \<Rightarrow> Inl TypeError
                | subscriptionField # _ \<Rightarrow>
                    (let alias = (case subscriptionField of Field al _ _ _ \<Rightarrow> al | _ \<Rightarrow> None);
                         subscriptionName =
                           (case subscriptionField of Field _ nm _ _ \<Rightarrow> nm | FragmentSpread nm \<Rightarrow> nm | _ \<Rightarrow> []);
                         args = (case subscriptionField of Field _ _ as _ \<Rightarrow> as | _ \<Rightarrow> []);
                         sub = (case subscriptionField of Field _ _ _ ss \<Rightarrow> ss | _ \<Rightarrow> None);
                         fragmentDefinitions = filter is_fragment doc
                     in (case extractArguments h args
                                (case variables of None \<Rightarrow> [] | Some vs \<Rightarrow> vs) of
                           Inl e \<Rightarrow> Inl e
                         | Inr params \<Rightarrow>
                             (case extractFields (stack h) sub fragmentDefinitions of
                                Inl e \<Rightarrow> Inl e
                              | Inr extracted \<Rightarrow>
                                  Inr (Some \<lparr> info_name = subscriptionName,
                                              info_fields = extracted,
                                              info_alias = alias, info_params = params \<rparr>)))))
           | _ \<Rightarrow> Inr None))"

text \<open>The \<^verbatim>\<open>catch\<close> wraps whatever was thrown.\<close>

definition extractSubscriptionQueryInfo ::
  "host \<Rightarrow> string \<Rightarrow> object option \<Rightarrow> js_error + SubscriptionInfo option" where
  "extractSubscriptionQueryInfo h query variables =
     (case extractSubscriptionQueryInfo_body h query variables of
        Inl e \<Rightarrow> Inl (Error ''Error parsing GraphQL query'' e)
      | Inr r \<Rightarrow> Inr r)"

text \<open>
  \<^verbatim>\<open>extractSubscriptionResultInfo\<close>, lines 158 to 169, on a payload that is the object at
  address \<open>result\<close> of the store. \<^verbatim>\<open>Object.keys\<close> throws on \<^verbatim>\<open>undefined\<close>, which an address
  outside the store stands for. The first component is \<^verbatim>\<open>resultName\<close> (\<open>None\<close> when the
  payload has no key), the second \<^verbatim>\<open>data\<close>.
\<close>

definition deref :: "store \<Rightarrow> addr \<Rightarrow> object option" where
  "deref st a = (if a < length st then Some (st ! a) else None)"

definition extractSubscriptionResultInfo ::
  "store \<Rightarrow> addr \<Rightarrow> js_error + (string option \<times> jsval)" where
  "extractSubscriptionResultInfo st result =
     (case deref st result of
        None \<Rightarrow> Inl TypeError
      | Some ps \<Rightarrow>
          (case map fst ps of
             [] \<Rightarrow> Inr (None, JUndefined)
           | resultName # _ \<Rightarrow> Inr (Some resultName, obj_get ps resultName)))"

section \<open>The registry (\<^verbatim>\<open>src/lib/subscriptions.ts\<close>, lines 180 to 448)\<close>

text \<open>
  The file holds two revisions of the class; the one modelled is the later one, with
  aliases, key injection and fixed arguments. A \<^verbatim>\<open>Map\<close> whose iteration order the code
  relies on (\<^verbatim>\<open>subscriptions\<close>) is an association list in insertion order; the other
  maps are partial functions. Calls of \<^verbatim>\<open>logger.error\<close> are recorded in \<open>logged\<close>;
  the \<^verbatim>\<open>logger.debug\<close> traces are left out.
\<close>

record SubscriptionOptions =
  opt_name :: string
  opt_key :: string
  opt_args :: "object option"

record SubscriptionConfig =
  cfg_key :: string
  cfg_args :: "object option"

record Subscription =
  sub_options :: SubscriptionOptions
  sub_name :: string
  sub_fields :: "string list"
  sub_params :: "jsval option"
  sub_lastValue :: jsval
  sub_alias :: "string option"
  sub_injectedKey :: bool
  sub_id :: "string option"
  sub_type :: string

record ClientState =
  init :: jsval
  subscriptions :: "(string \<times> Subscription) list"
  ids :: "string \<rightharpoonup> string"

datatype log_entry = LogError string js_error

record registry =
  clients :: "string \<rightharpoonup> ClientState"
  subscriptionsConfig :: "string \<rightharpoonup> SubscriptionConfig"
  logged :: "log_entry list"

text \<open>\<^verbatim>\<open>has\<close>, \<^verbatim>\<open>get\<close>, \<^verbatim>\<open>set\<close> and \<^verbatim>\<open>delete\<close> of the \<^verbatim>\<open>subscriptions\<close> map.\<close>

definition subs_has :: "(string \<times> Subscription) list \<Rightarrow> string \<Rightarrow> bool" where
  "subs_has m k = (map_of m k \<noteq> None)"

definition subs_get :: "(string \<times> Subscription) list \<Rightarrow> string \<Rightarrow> Subscription option" where
  "subs_get m k = map_of m k"

definition subs_set ::
  "(string \<times> Subscription) list \<Rightarrow> string \<Rightarrow> Subscription \<Rightarrow> (string \<times> Subscription) list" where
  "subs_set m k v = AList.update k v m"

definition subs_delete :: "(string \<times> Subscription) list \<Rightarrow> string \<Rightarrow> (string \<times> Subscription) list" where
  "subs_delete m k = AList.delete k m"

text \<open>\<^verbatim>\<open>buildRecoveryQuery\<close>, lines 220 to 237. \<open>join\<close> is \<^verbatim>\<open>Array.prototype.join\<close>.\<close>

fun join :: "string \<Rightarrow> string list \<Rightarrow> string" where
  "join sep [] = []"
| "join sep [x] = x"
| "join sep (x # y # ys) = x @ sep @ join sep (y # ys)"

definition buildRecoveryQuery :: "host \<Rightarrow> Subscription \<Rightarrow> string" where
  "buildRecoveryQuery h subscription =
     (let aliasPrefix =
            (case sub_alias subscription of
               None \<Rightarrow> []
             | Some a \<Rightarrow> if a \<noteq> [] then a @ '': '' else []);
          args0 =
            (if sub_lastValue subscription \<noteq> JNull \<and> sub_lastValue subscription \<noteq> JUndefined
             then [opt_key (sub_options subscription) @ '': ''
                     @ JSON_stringify h (sub_lastValue subscription)]
             else []);
          args =
            (case opt_args (sub_options subscription) of
               None \<Rightarrow> args0
             | Some fixed \<Rightarrow>
                 fold (\<lambda>entry acc. acc @ [fst entry @ '': '' @ JSON_stringify h (snd entry)])
                   fixed args0)
      in ''subscription { '' @ aliasPrefix @ opt_name (sub_options subscription)
           @ (if length args > 0 then ''('' @ join '', '' args @ '')'' else [])
           @ '' { '' @ join '', '' (sub_fields subscription) @ '' } }'')"

text \<open>The constructor, lines 247 to 259: a later descriptor of the same name wins.\<close>

definition StatefulSubscriptions :: "SubscriptionOptions list \<Rightarrow> registry" where
  "StatefulSubscriptions options =
     \<lparr> clients = Map.empty,
       subscriptionsConfig =
         fold (\<lambda>subscription m.
                 m(opt_name subscription \<mapsto>
                     \<lparr> cfg_key = opt_key subscription, cfg_args = opt_args subscription \<rparr>))
           options Map.empty,
       logged = [] \<rparr>"

definition createClientState :: ClientState where
  "createClientState = \<lparr> init = JUndefined, subscriptions = [], ids = Map.empty \<rparr>"

text \<open>The client of the first lines of \<^verbatim>\<open>addSubscriptionInit\<close> and \<^verbatim>\<open>addSubscription\<close>:
  the one stored, or a new one.\<close>

definition client_or_new :: "registry \<Rightarrow> string \<Rightarrow> ClientState" where
  "client_or_new st clientId =
     (case clients st clientId of None \<Rightarrow> createClientState | Some c \<Rightarrow> c)"

text \<open>\<^verbatim>\<open>addSubscriptionInit\<close>, lines 269 to 277.\<close>

definition addSubscriptionInit :: "registry \<Rightarrow> string \<Rightarrow> jsval \<Rightarrow> registry" where
  "addSubscriptionInit st clientId payload =
     st\<lparr> clients := (clients st)(clientId \<mapsto> (client_or_new st clientId)\<lparr> init := payload \<rparr>) \<rparr>"

text \<open>
  \<^verbatim>\<open>addSubscription\<close>, lines 279 to 357. \<open>variables\<close>, \<open>subscriptionId\<close> and
  \<open>subscriptionType\<close> are optional arguments (\<open>None\<close> when not given); \<open>variables\<close>,
  when given, is an object, as the signature has it.
\<close>

definition subscription_identifier :: "SubscriptionInfo \<Rightarrow> string" where
  "subscription_identifier s =
     (if truthy_str (info_alias s)
      then (case info_alias s of Some a \<Rightarrow> a | None \<Rightarrow> info_name s)
      else info_name s)"

definition initial_lastValue ::
  "host \<Rightarrow> SubscriptionInfo \<Rightarrow> SubscriptionConfig \<Rightarrow> object option \<Rightarrow> jsval" where
  "initial_lastValue h s config variables =
     (let fromParams =
            (if truthy (js_get h (info_params s) (cfg_key config))
             then js_get h (info_params s) (cfg_key config) else JNull)
      in case variables of
           None \<Rightarrow> fromParams
         | Some vs \<Rightarrow>
             if js_in h vs ''lastValue'' then js_get h (JObj vs) ''lastValue'' else fromParams)"

definition new_subscription ::
  "host \<Rightarrow> SubscriptionInfo \<Rightarrow> SubscriptionConfig \<Rightarrow> object option \<Rightarrow> string option
     \<Rightarrow> string option \<Rightarrow> Subscription" where
  "new_subscription h s config variables subscriptionId subscriptionType =
     (let keyIncluded = cfg_key config \<in> set (info_fields s);
          injectedKey = \<not> keyIncluded;
          fields' = (if keyIncluded then info_fields s else info_fields s @ [cfg_key config])
      in \<lparr> sub_options = \<lparr> opt_name = info_name s, opt_key = cfg_key config,
                            opt_args = cfg_args config \<rparr>,
           sub_name = info_name s,
           sub_fields = fields',
           sub_params = Some (info_params s),
           sub_lastValue = initial_lastValue h s config variables,
           sub_alias = (if truthy_str (info_alias s) then info_alias s else None),
           sub_injectedKey = injectedKey,
           sub_id = (if truthy_str subscriptionId then subscriptionId else None),
           sub_type = (case subscriptionType of
                         None \<Rightarrow> ''start''
                       | Some t \<Rightarrow> if t \<noteq> [] then t else ''start'') \<rparr>)"

definition addSubscription ::
  "host \<Rightarrow> registry \<Rightarrow> string \<Rightarrow> string \<Rightarrow> object option \<Rightarrow> string option \<Rightarrow> string option
     \<Rightarrow> registry" where
  "addSubscription h st clientId query variables subscriptionId subscriptionType =
     (let client = client_or_new st clientId;
          st1 = st\<lparr> clients := (clients st)(clientId \<mapsto> client) \<rparr>
      in case extractSubscriptionQueryInfo h query variables of
           Inl err \<Rightarrow> st1\<lparr> logged := logged st1 @ [LogError ''Error parsing GraphQL query'' err] \<rparr>
         | Inr None \<Rightarrow> st1
         | Inr (Some s) \<Rightarrow>
             (let subscriptionName = subscription_identifier s
              in if subs_has (subscriptions client) subscriptionName then st1
                 else (case subscriptionsConfig st (info_name s) of
                         None \<Rightarrow> st1
                       | Some config \<Rightarrow>
                           (let subscription =
                                  new_subscription h s config variables subscriptionId
                                    subscriptionType;
                                ids' = (case sub_id subscription of
                                          None \<Rightarrow> ids client
                                        | Some i \<Rightarrow> (ids client)(i \<mapsto> subscriptionName))
                            in st\<lparr> clients := (clients st)(clientId \<mapsto>
                                   client\<lparr> subscriptions :=
                                             subs_set (subscriptions client) subscriptionName subscription,
                                           ids := ids' \<rparr>) \<rparr>))))"

text \<open>
  \<^verbatim>\<open>updateSubscriptionState\<close>, lines 359 to 399. The payload is the object at address
  \<open>result\<close>; the store is returned with the registry because the payload is written to.
  \<open>get_property\<close> is \<^verbatim>\<open>r.data[config.key]\<close>: reading a property of \<^verbatim>\<open>null\<close> or
  \<^verbatim>\<open>undefined\<close> throws, and a value that is not an object has no own property of a name
  (the indices and \<^verbatim>\<open>length\<close> of arrays and strings are not modelled). The payload is
  data parsed from JSON and the key is the name of one of its fields: the key field is read
  as an own property of the data object. \<open>spread\<close> is
  \<^verbatim>\<open>{ ...r.data }\<close>. The copy is a new object, allocated at the end of the store.
\<close>

definition get_property :: "store \<Rightarrow> jsval \<Rightarrow> string \<Rightarrow> js_error + jsval" where
  "get_property st v k =
     (case v of
        JUndefined \<Rightarrow> Inl TypeError
      | JNull \<Rightarrow> Inl TypeError
      | JObj ps \<Rightarrow> Inr (obj_get ps k)
      | JObjProto p ps \<Rightarrow> Inr (obj_get ps k)
      | JRef a \<Rightarrow> (case deref st a of None \<Rightarrow> Inl TypeError | Some ps \<Rightarrow> Inr (obj_get ps k))
      | _ \<Rightarrow> Inr JUndefined)"

definition spread :: "store \<Rightarrow> jsval \<Rightarrow> object" where
  "spread st v =
     (case v of
        JObj ps \<Rightarrow> ps
      | JObjProto p ps \<Rightarrow> ps
      | JRef a \<Rightarrow> (case deref st a of None \<Rightarrow> [] | Some ps \<Rightarrow> ps)
      | _ \<Rightarrow> [])"

definition updateSubscriptionState ::
  "registry \<Rightarrow> store \<Rightarrow> string \<Rightarrow> addr \<Rightarrow> js_error + (registry \<times> store)" where
  "updateSubscriptionState st sto clientId result =
     (case clients st clientId of
        None \<Rightarrow> Inr (st, sto)
      | Some client \<Rightarrow>
          (case extractSubscriptionResultInfo sto result of
             Inl e \<Rightarrow> Inl e
           | Inr (None, data) \<Rightarrow> Inr (st, sto)
           | Inr (Some resultName, data) \<Rightarrow>
               (case subs_get (subscriptions client) resultName of
                  None \<Rightarrow> Inr (st, sto)
                | Some subscription \<Rightarrow>
                    (case subscriptionsConfig st (sub_name subscription) of
                       None \<Rightarrow> Inr (st, sto)
                     | Some config \<Rightarrow>
                         (case get_property sto data (cfg_key config) of
                            Inl e \<Rightarrow> Inl e
                          | Inr keyValue \<Rightarrow>
                              (let st' =
                                     (if keyValue \<noteq> JUndefined
                                      then st\<lparr> clients := (clients st)(clientId \<mapsto>
                                             client\<lparr> subscriptions :=
                                               subs_set (subscriptions client) resultName
                                                 (subscription\<lparr> sub_lastValue := keyValue \<rparr>) \<rparr>) \<rparr>
                                      else st);
                                   sto' =
                                     (if sub_injectedKey subscription \<and> keyValue \<noteq> JUndefined
                                      then (let dataWithoutKey =
                                                  obj_delete (spread sto data) (cfg_key config)
                                            in (sto @ [dataWithoutKey])
                                                 [result := obj_set (sto ! result) resultName
                                                              (JRef (length sto))])
                                      else sto)
                               in Inr (st', sto')))))))"

text \<open>
  \<^verbatim>\<open>restoreSubscriptions\<close>, lines 402 to 426. The result is the list of the objects handed,
  serialised, to \<^verbatim>\<open>target.send\<close>, in the order of the calls.
\<close>

datatype message =
    ConnectionInit jsval
  | SubscriptionMessage "string option" string string

definition restoreSubscriptions :: "host \<Rightarrow> registry \<Rightarrow> string \<Rightarrow> message list" where
  "restoreSubscriptions h st clientId =
     (case clients st clientId of
        None \<Rightarrow> []
      | Some client \<Rightarrow>
          fold (\<lambda>subscription sent.
                  sent @ [SubscriptionMessage (sub_id subscription) (sub_type subscription)
                            (buildRecoveryQuery h subscription)])
            (map snd (subscriptions client))
            [ConnectionInit (init client)])"

text \<open>\<^verbatim>\<open>removeSubscription\<close> and \<^verbatim>\<open>removeAllSubscriptions\<close>, lines 428 to 447.\<close>

definition removeSubscription :: "registry \<Rightarrow> string \<Rightarrow> string \<Rightarrow> registry" where
  "removeSubscription st clientId subscriptionId =
     (if subscriptionId = [] then st
      else (case clients st clientId of
              None \<Rightarrow> st
            | Some client \<Rightarrow>
                (case ids client subscriptionId of
                   None \<Rightarrow> st
                 | Some subscriptionName \<Rightarrow>
                     if subscriptionName = [] then st
                     else st\<lparr> clients := (clients st)(clientId \<mapsto>
                            client\<lparr> subscriptions := subs_delete (subscriptions client) subscriptionName,
                                    ids := (ids client)(subscriptionId := None) \<rparr>) \<rparr>)))"

definition removeAllSubscriptions :: "registry \<Rightarrow> string \<Rightarrow> registry" where
  "removeAllSubscriptions st clientId =
     (case clients st clientId of
        None \<Rightarrow> st
      | Some client \<Rightarrow>
          st\<lparr> clients := (clients st)(clientId \<mapsto> client\<lparr> subscriptions := [], ids := Map.empty \<rparr>) \<rparr>)"

text \<open>The registries that the constructor and the public methods produce.\<close>

inductive reachable :: "SubscriptionOptions list \<Rightarrow> registry \<Rightarrow> bool"
  for options :: "SubscriptionOptions list" where
  r_new: "reachable options (StatefulSubscriptions options)"
| r_init: "reachable options st \<Longrightarrow> reachable options (addSubscriptionInit st clientId payload)"
| r_add: "reachable options st \<Longrightarrow>
          reachable options (addSubscription h st clientId query variables subscriptionId subscriptionType)"
| r_update: "reachable options st \<Longrightarrow> updateSubscriptionState st sto clientId result = Inr (st', sto')
          \<Longrightarrow> reachable options st'"
| r_remove: "reachable options st \<Longrightarrow> reachable options (removeSubscription st clientId subscriptionId)"
| r_clear: "reachable options st \<Longrightarrow> reachable options (removeAllSubscriptions st clientId)"

section \<open>Tracked subscriptions and the invariant of the registry\<close>

text \<open>
  \<open>tracked st clientId k\<close> is the subscription that client \<open>clientId\<close> holds under the
  identity \<open>k\<close>. The invariant says what every registry built through the public methods
  satisfies: the descriptors are those of the constructor, no client holds two
  subscriptions under one identity, and every subscription held has a descriptor under its
  root name, carries that descriptor's key and fixed arguments, has no empty alias, and is
  held under its alias, or under its root name when it has none.
\<close>

definition tracked :: "registry \<Rightarrow> string \<Rightarrow> string \<Rightarrow> Subscription option" where
  "tracked st clientId k =
     (case clients st clientId of None \<Rightarrow> None | Some c \<Rightarrow> subs_get (subscriptions c) k)"

definition sub_wf :: "(string \<rightharpoonup> SubscriptionConfig) \<Rightarrow> string \<Rightarrow> Subscription \<Rightarrow> bool" where
  "sub_wf cfgs k s =
     ((case cfgs (sub_name s) of
         None \<Rightarrow> False
       | Some cfg \<Rightarrow>
           sub_options s =
             \<lparr> opt_name = sub_name s, opt_key = cfg_key cfg, opt_args = cfg_args cfg \<rparr>)
      \<and> sub_alias s \<noteq> Some []
      \<and> k = (case sub_alias s of None \<Rightarrow> sub_name s | Some a \<Rightarrow> a))"

definition client_inv :: "(string \<rightharpoonup> SubscriptionConfig) \<Rightarrow> ClientState \<Rightarrow> bool" where
  "client_inv cfgs c =
     (distinct (map fst (subscriptions c))
      \<and> (\<forall>(k, s) \<in> set (subscriptions c). sub_wf cfgs k s))"

definition registry_inv :: "SubscriptionOptions list \<Rightarrow> registry \<Rightarrow> bool" where
  "registry_inv options st =
     (subscriptionsConfig (StatefulSubscriptions options) = subscriptionsConfig st
      \<and> (\<forall>cid c. clients st cid = Some c \<longrightarrow> client_inv (subscriptionsConfig st) c))"

section \<open>The recovery query as the specification words it\<close>

text \<open>
  The text \<^verbatim>\<open>subscription { \<close>, the alias and \<^verbatim>\<open>: \<close> when an alias was recorded, the
  root name, a parenthesised argument list when there is at least one argument (the key
  argument first, when the last value is neither \<^verbatim>\<open>null\<close> nor absent, then the fixed
  arguments in their configured order, separated by \<^verbatim>\<open>, \<close>), then \<^verbatim>\<open> { \<close>, the
  tracked fields separated by \<^verbatim>\<open>, \<close>, and \<^verbatim>\<open> } }\<close>.
\<close>

definition recovery_arguments_spec ::
  "(jsval \<Rightarrow> string) \<Rightarrow> string \<Rightarrow> jsval \<Rightarrow> object option \<Rightarrow> string list" where
  "recovery_arguments_spec json key lastValue fixedArgs =
     (if lastValue = JNull \<or> lastValue = JUndefined then [] else [key @ '': '' @ json lastValue])
     @ map (\<lambda>(name, value). name @ '': '' @ json value)
         (case fixedArgs of None \<Rightarrow> [] | Some fixed \<Rightarrow> fixed)"

definition recovery_query_spec ::
  "(jsval \<Rightarrow> string) \<Rightarrow> string option \<Rightarrow> string \<Rightarrow> string \<Rightarrow> jsval \<Rightarrow> object option
     \<Rightarrow> string list \<Rightarrow> string" where
  "recovery_query_spec json alias rootName key lastValue fixedArgs tracked_fields =
     ''subscription { ''
     @ (case alias of None \<Rightarrow> [] | Some a \<Rightarrow> a @ '': '')
     @ rootName
     @ (case recovery_arguments_spec json key lastValue fixedArgs of
          [] \<Rightarrow> []
        | arg # others \<Rightarrow> ''('' @ join '', '' (arg # others) @ '')'')
     @ '' { '' @ join '', '' tracked_fields @ '' } }''"

section \<open>Concrete inputs\<close>

text \<open>
  The queries of the examples of the specification, a query whose fragment spreads
  itself and a query whose argument is a variable named \<^verbatim>\<open>toString\<close>, with the documents
  the parser makes of them, and a host that parses exactly these. Its \<^verbatim>\<open>JSON.stringify\<close> renders the naturals
  below 100, strings that need no escape, booleans and \<^verbatim>\<open>null\<close>.
\<close>

definition query_items :: string where
  "query_items = ''subscription { onItems { id data } }''"

definition doc_items :: document where
  "doc_items =
     [OperationDefinition Subscription
        [Field None ''onItems'' []
           (Some [Field None ''id'' [] None, Field None ''data'' [] None])]]"

definition query_feed :: string where
  "query_feed = ''subscription { Feed: onItems { id offset } }''"

definition doc_feed :: document where
  "doc_feed =
     [OperationDefinition Subscription
        [Field (Some ''Feed'') ''onItems'' []
           (Some [Field None ''id'' [] None, Field None ''offset'' [] None])]]"

definition query_zero :: string where
  "query_zero = ''subscription { onItems(offset: 0) { id offset } }''"

definition doc_zero :: document where
  "doc_zero =
     [OperationDefinition Subscription
        [Field None ''onItems'' [(''offset'', IntValue ''0'')]
           (Some [Field None ''id'' [] None, Field None ''offset'' [] None])]]"

definition query_other :: string where
  "query_other = ''subscription { onOther { id } }''"

definition doc_other :: document where
  "doc_other =
     [OperationDefinition Subscription
        [Field None ''onOther'' [] (Some [Field None ''id'' [] None])]]"

definition query_toString :: string where
  "query_toString = ''subscription($toString: Int) { onItems(offset: $toString) { id offset } }''"

definition doc_toString :: document where
  "doc_toString =
     [OperationDefinition Subscription
        [Field None ''onItems'' [(''offset'', Variable ''toString'')]
           (Some [Field None ''id'' [] None, Field None ''offset'' [] None])]]"

definition query_loop :: string where
  "query_loop = ''subscription { onItems { ...F } } fragment F on Item { ...F }''"

definition doc_loop :: document where
  "doc_loop =
     [OperationDefinition Subscription
        [Field None ''onItems'' [] (Some [FragmentSpread ''F''])],
      FragmentDefinition ''F'' [FragmentSpread ''F'']]"

definition example_parse :: "string \<Rightarrow> document option" where
  "example_parse q =
     (if q = query_items then Some doc_items
      else if q = query_feed then Some doc_feed
      else if q = query_zero then Some doc_zero
      else if q = query_other then Some doc_other
      else if q = query_loop then Some doc_loop
      else if q = query_toString then Some doc_toString
      else None)"

definition example_stringify :: "jsval \<Rightarrow> string" where
  "example_stringify v =
     (case v of
        JNum n \<Rightarrow>
          (if 0 \<le> n \<and> n < 10 then [char_of (48 + nat n)]
           else if 10 \<le> n \<and> n < 100
             then [char_of (48 + nat n div 10), char_of (48 + nat n mod 10)]
           else ''0'')
      | JStr s \<Rightarrow> [CHR 0x22] @ s @ [CHR 0x22]
      | JBool b \<Rightarrow> (if b then ''true'' else ''false'')
      | _ \<Rightarrow> ''null'')"

text \<open>The properties of \<^verbatim>\<open>Object.prototype\<close> as the language defines them, the accessor
  \<^verbatim>\<open>__proto__\<close> apart, and the \<^verbatim>\<open>length\<close> of an array. The examples read no property
  of a function and assign to no object that has a function or an array as its prototype, so
  the example host answers \<^verbatim>\<open>undefined\<close> and \<open>False\<close> there.\<close>

definition standard_builtin_get :: "jsval \<Rightarrow> string \<Rightarrow> jsval" where
  "standard_builtin_get v k =
     (if v = Object_prototype then
        (if k = ''constructor'' then JBuiltin ''Object''
         else if k \<in> set [''hasOwnProperty'', ''isPrototypeOf'', ''propertyIsEnumerable'',
                           ''toLocaleString'', ''toString'', ''valueOf'', ''__defineGetter__'',
                           ''__defineSetter__'', ''__lookupGetter__'', ''__lookupSetter__'']
           then JBuiltin (''Object.prototype.'' @ k)
         else JUndefined)
      else (case v of
              JArr xs \<Rightarrow> if k = ''length'' then JNum (int (length xs)) else JUndefined
            | _ \<Rightarrow> JUndefined))"

definition graphql_host :: host where
  "graphql_host =
     \<lparr> parse = example_parse, parseFloat = (\<lambda>s. quiet_NaN),
       JSON_stringify = example_stringify, stack = 8,
       builtin_get = standard_builtin_get, assign_blocked = (\<lambda>v k. False) \<rparr>"

definition example_options :: "SubscriptionOptions list" where
  "example_options = [\<lparr> opt_name = ''onItems'', opt_key = ''offset'', opt_args = None \<rparr>]"

definition fixed_options :: "SubscriptionOptions list" where
  "fixed_options =
     [\<lparr> opt_name = ''onItems'', opt_key = ''offset'',
        opt_args = Some [(''filter'', JStr ''important''), (''limit'', JNum 10)] \<rparr>]"

text \<open>The payload \<^verbatim>\<open>{ onItems: { id: "x", offset: 7 } }\<close>: the root object at address 0, its
  data object at address 1. \<open>payload_feed\<close> is the same data under the key \<^verbatim>\<open>Feed\<close>.\<close>

definition payload_items :: store where
  "payload_items = [[(''onItems'', JRef 1)], [(''id'', JStr ''x''), (''offset'', JNum 7)]]"

definition payload_feed :: store where
  "payload_feed = [[(''Feed'', JRef 1)], [(''id'', JStr ''x''), (''offset'', JNum 7)]]"

section \<open>What the introspector returns\<close>

text \<open>When the first selection of the subscription operation is a field, the result is made
  of that field: its name, its alias, its arguments resolved, and the leaves of its
  selection set.\<close>

lemma extractSubscriptionQueryInfo_field:
  assumes "parse h query = Some doc"
    and "find is_subscription doc = Some (OperationDefinition op (Field al nm args sub # others))"
  shows "extractSubscriptionQueryInfo h query vars =
           (case extractArguments h args (case vars of None \<Rightarrow> [] | Some vs \<Rightarrow> vs) of
              Inl e \<Rightarrow> Inl (Error ''Error parsing GraphQL query'' e)
            | Inr params \<Rightarrow>
                (case extractFields (stack h) sub (filter is_fragment doc) of
                   Inl e \<Rightarrow> Inl (Error ''Error parsing GraphQL query'' e)
                 | Inr fs \<Rightarrow>
                     Inr (Some \<lparr> info_name = nm, info_fields = fs, info_alias = al,
                                 info_params = params \<rparr>)))"
  using assms
  by (simp add: extractSubscriptionQueryInfo_def extractSubscriptionQueryInfo_body_def Let_def
           split: sum.splits)

lemma extractSubscriptionQueryInfo_field_info:
  assumes "parse h query = Some doc"
    and "find is_subscription doc = Some (OperationDefinition op (Field al nm args sub # others))"
    and "extractSubscriptionQueryInfo h query vars = Inr (Some info)"
  shows "info_name info = nm" and "info_alias info = al"
    and "extractArguments h args (case vars of None \<Rightarrow> [] | Some vs \<Rightarrow> vs)
           = Inr (info_params info)"
  using assms(3) unfolding extractSubscriptionQueryInfo_field [OF assms(1,2)]
  by (auto split: sum.splits)

text \<open>What \<^verbatim>\<open>extractFields\<close> returns with some room on the stack it returns with more.\<close>

lemma stack_monotone:
  "extractFields n ss defs = Inr fs \<Longrightarrow> extractFields (Suc n) ss defs = Inr fs"
  "extractSelections n sels defs = Inr gs \<Longrightarrow> extractSelections (Suc n) sels defs = Inr gs"
proof (induction n ss defs and n sels defs arbitrary: fs and gs
        rule: extractFields_extractSelections.induct)
  case (1 selectionSet defs)
  then show ?case by simp
next
  case (2 n defs)
  then show ?case by simp
next
  case (3 n sels defs)
  then show ?case by simp
next
  case (4 n defs)
  then show ?case by simp
next
  case (5 n sel rest defs)
  show ?case
  proof (cases sel)
    case (Field al nm args sub)
    show ?thesis
    proof (cases "nm = ''__typename''")
      case True
      then show ?thesis using "5.prems" "5.IH"(4) Field
        by (auto split: sum.splits)
    next
      case False
      show ?thesis
      proof (cases sub)
        case None
        then show ?thesis using "5.prems" "5.IH"(4) Field False
          by (auto split: sum.splits)
      next
        case (Some nested)
        then show ?thesis using "5.prems" "5.IH"(1) [OF Field False Some] "5.IH"(4) Field False
          by (auto split: sum.splits)
      qed
    qed
  next
    case (FragmentSpread fragmentName)
    show ?thesis
    proof (cases "find_fragment defs fragmentName")
      case None
      then show ?thesis using "5.prems" "5.IH"(4) FragmentSpread
        by (auto split: sum.splits)
    next
      case (Some fsels)
      then show ?thesis using "5.prems" "5.IH"(2) [OF FragmentSpread Some] "5.IH"(4) FragmentSpread
        by (auto split: sum.splits)
    qed
  next
    case (InlineFragment isels)
    then show ?thesis using "5.prems" "5.IH"(3) [OF InlineFragment] "5.IH"(4)
      by (auto split: sum.splits)
  qed
qed

text \<open>A fragment that spreads itself exhausts the stack, however deep the stack is.\<close>

lemma self_spread_exhausts_stack:
  "extractFields n (Some [FragmentSpread f]) [FragmentDefinition f [FragmentSpread f]]
     = Inl RangeError"
proof (induction n)
  case 0
  show ?case by simp
next
  case (Suc n)
  have "find_fragment [FragmentDefinition f [FragmentSpread f]] f = Some [FragmentSpread f]"
    by (simp add: find_fragment_def)
  then show ?case using Suc.IH by simp
qed

text \<open>The introspector on the example queries.\<close>

lemma ex_extract_items:
  "extractSubscriptionQueryInfo graphql_host query_items vars =
     Inr (Some \<lparr> info_name = ''onItems'', info_fields = [''id'', ''data''],
                 info_alias = None, info_params = JObj [] \<rparr>)"
  by code_simp

lemma ex_extract_other:
  "extractSubscriptionQueryInfo graphql_host query_other vars =
     Inr (Some \<lparr> info_name = ''onOther'', info_fields = [''id''],
                 info_alias = None, info_params = JObj [] \<rparr>)"
  by code_simp

lemma ex_extract_feed:
  "extractSubscriptionQueryInfo graphql_host query_feed vars =
     Inr (Some \<lparr> info_name = ''onItems'', info_fields = [''id'', ''offset''],
                 info_alias = Some ''Feed'', info_params = JObj [] \<rparr>)"
  by code_simp

lemma ex_extract_zero:
  "extractSubscriptionQueryInfo graphql_host query_zero vars =
     Inr (Some \<lparr> info_name = ''onItems'', info_fields = [''id'', ''offset''],
                 info_alias = None, info_params = JObj [(''offset'', JNum 0)] \<rparr>)"
  by code_simp

lemma ex_extract_loop:
  "extractSubscriptionQueryInfo graphql_host query_loop vars =
     Inl (Error ''Error parsing GraphQL query'' RangeError)"
  by code_simp

lemma ex_extract_toString:
  "extractSubscriptionQueryInfo graphql_host query_toString None =
     Inr (Some \<lparr> info_name = ''onItems'', info_fields = [''id'', ''offset''],
                 info_alias = None,
                 info_params = JObj [(''offset'', JBuiltin ''Object.prototype.toString'')] \<rparr>)"
  by code_simp

section \<open>Argument values\<close>

subsection \<open>Associations and integer literals\<close>

lemma update_fresh_append:
  "k \<notin> fst ` set al \<Longrightarrow> AList.update k v al = al @ [(k, v)]"
  by (induction al) auto

lemma dropWhile_space_digit:
  "is_digit c \<Longrightarrow> dropWhile is_space (c # cs) = c # cs"
  apply (simp add: is_digit_def is_space_def)
  apply (cases c)
  apply auto
  done

lemma digit_not_sign: "is_digit c \<Longrightarrow> c \<noteq> CHR ''-'' \<and> c \<noteq> CHR ''+''"
  by (auto simp: is_digit_def)

lemma parseInt10_digits:
  assumes "ds \<noteq> []" "list_all is_digit ds" "digits_value ds \<le> 2 ^ 53"
  shows "parseInt10 h ds = JNum (digits_value ds)"
proof -
  from assms obtain c cs where ds: "ds = c # cs" by (cases ds) auto
  with assms have c: "is_digit c" by simp
  have tw: "takeWhile is_digit (c # cs) = c # cs"
    using assms(2) by (simp add: list_all_iff ds)
  have dw: "dropWhile is_space (c # cs) = c # cs"
    using c by (rule dropWhile_space_digit)
  have sg: "c \<noteq> CHR ''-''" "c \<noteq> CHR ''+''"
    using digit_not_sign[OF c] by simp_all
  have le: "digits_value (c # cs) \<le> 2 ^ 53" using assms(3) by (simp add: ds)
  show ?thesis
    unfolding parseInt10_def ds Let_def dw
    using sg le by (simp add: tw del: dropWhile.simps takeWhile.simps)
qed

lemma parseInt10_neg_digits:
  assumes "ds \<noteq> []" "list_all is_digit ds" "digits_value ds \<le> 2 ^ 53"
  shows "parseInt10 h (CHR ''-'' # ds) = JNum (- digits_value ds)"
proof -
  have tw: "takeWhile is_digit ds = ds" using assms(2) by (simp add: list_all_iff)
  have dw: "dropWhile is_space (CHR ''-'' # ds) = CHR ''-'' # ds"
    by (simp add: is_space_def)
  show ?thesis
    unfolding parseInt10_def Let_def dw
    using assms(1,3) by (simp add: tw)
qed



subsection \<open>Variables\<close>

lemma extractVariable_bound:
  "map_of vars x = Some v \<Longrightarrow> extractVariable h x vars = (if v = JUndefined then JNull else v)"
  by (simp add: extractVariable_def js_get_def)

lemma extractVariable_unbound:
  "map_of vars x = None \<Longrightarrow> x \<noteq> ''__proto__'' \<Longrightarrow>
   extractVariable h x vars =
     (if builtin_get h Object_prototype x = JUndefined then JNull
      else builtin_get h Object_prototype x)"
  by (simp add: extractVariable_def js_get_def)

lemma extractVariable_proto:
  "map_of vars ''__proto__'' = None \<Longrightarrow> extractVariable h ''__proto__'' vars = Object_prototype"
  by (simp add: extractVariable_def js_get_def Object_prototype_def)

subsection \<open>Objects built by successive assignments\<close>

lemma js_assign_plain:
  "k \<noteq> ''__proto__'' \<Longrightarrow> js_assign h (JObj ps) k v = Inr (JObj (obj_set ps k v))"
  by (simp add: js_assign_def)

lemma assign_fields_plain:
  "''__proto__'' \<notin> fst ` set fs \<Longrightarrow> assign_fields h fs vars (JObj acc) = Inr r \<Longrightarrow>
   \<exists>ps. r = JObj ps
      \<and> (\<forall>k v. map_of (rev fs) k = Some v \<longrightarrow>
            (\<exists>x. extractArgumentValue h v vars = Inr x \<and> map_of ps k = Some x))
      \<and> (\<forall>k. map_of (rev fs) k = None \<longrightarrow> map_of ps k = map_of acc k)"
proof (induction fs arbitrary: acc)
  case Nil
  then show ?case by auto
next
  case (Cons f fs)
  obtain k0 v0 where f: "f = (k0, v0)" by (cases f)
  from Cons.prems(1) have k0: "k0 \<noteq> ''__proto__''" and rest: "''__proto__'' \<notin> fst ` set fs"
    by (auto simp: f)
  from Cons.prems(2) obtain x where x: "extractArgumentValue h v0 vars = Inr x"
    and r: "assign_fields h fs vars (JObj (obj_set acc k0 x)) = Inr r"
    by (auto simp: f js_assign_plain [OF k0] split: sum.splits)
  from Cons.IH [OF rest r] obtain ps where ps: "r = JObj ps"
    and hit: "\<And>k v. map_of (rev fs) k = Some v \<Longrightarrow>
                \<exists>x. extractArgumentValue h v vars = Inr x \<and> map_of ps k = Some x"
    and miss: "\<And>k. map_of (rev fs) k = None \<Longrightarrow> map_of ps k = map_of (obj_set acc k0 x) k"
    by blast
  have "\<exists>y. extractArgumentValue h v vars = Inr y \<and> map_of ps k = Some y"
    if "map_of (rev (f # fs)) k = Some v" for k v
  proof (cases "map_of (rev fs) k")
    case None
    with that have "k = k0" "v = v0"
      by (auto simp: f map_add_def split: if_splits)
    with miss [OF None] x show ?thesis by (simp add: obj_set_def update_conv')
  next
    case (Some w)
    with that have "w = v" by (simp add: f map_add_def)
    with hit [of k w] Some show ?thesis by simp
  qed
  moreover have "map_of ps k = map_of acc k" if "map_of (rev (f # fs)) k = None" for k
  proof -
    from that have n: "map_of (rev fs) k = None" and "k \<noteq> k0"
      by (auto simp: f map_add_def split: option.splits if_splits)
    with miss [OF n] show ?thesis by (simp add: obj_set_def update_conv')
  qed
  ultimately show ?case using ps by blast
qed

text \<open>
  Claim C9 says how each kind of argument value is resolved. The code resolves an unbound
  variable, or one bound to \<^verbatim>\<open>undefined\<close>, to \<^verbatim>\<open>null\<close>, as the claim says, for a
  name such as \<^verbatim>\<open>$offsetVar\<close>; but some names escape. A variable that the
  variables object does not bind resolves, not to \<^verbatim>\<open>null\<close>, but to what the object
  inherits under that name: for \<^verbatim>\<open>$toString\<close> and no variables, the function
  \<^verbatim>\<open>Object.prototype.toString\<close>, which the introspector returns as the value of the
  argument, and for \<^verbatim>\<open>$__proto__\<close> the object \<^verbatim>\<open>Object.prototype\<close>. An argument, or a
  field of an object literal, that is named \<^verbatim>\<open>__proto__\<close> is not mapped: the assignment
  reaches the accessor of \<^verbatim>\<open>Object.prototype\<close>, so that an integer is dropped and an
  object becomes the prototype of the result, which has no key of that name.
\<close>

theorem unbound_variable_and_proto_key_escape:
  "extractArgumentValue graphql_host (Variable ''offsetVar'') [] = Inr JNull
   \<and> extractArgumentValue graphql_host (Variable ''offsetVar'') [(''offsetVar'', JUndefined)]
     = Inr JNull
   \<and> extractArgumentValue graphql_host (Variable ''toString'') []
     = Inr (JBuiltin ''Object.prototype.toString'')
   \<and> extractArgumentValue graphql_host (Variable ''__proto__'') []
     = Inr (JBuiltin ''Object.prototype'')
   \<and> extractSubscriptionQueryInfo graphql_host query_toString None
     = Inr (Some \<lparr> info_name = ''onItems'', info_fields = [''id'', ''offset''],
                   info_alias = None,
                   info_params = JObj [(''offset'', JBuiltin ''Object.prototype.toString'')] \<rparr>)
   \<and> extractArguments graphql_host
        [(''__proto__'', IntValue ''1''), (''limit'', IntValue ''2'')] []
     = Inr (JObj [(''limit'', JNum 2)])
   \<and> extractArgumentValue graphql_host
        (ObjectValue [(''__proto__'', ObjectValue [(''offset'', IntValue ''5'')]),
                      (''limit'', IntValue ''2'')]) []
     = Inr (JObjProto (JObj [(''offset'', JNum 5)]) [(''limit'', JNum 2)])"
  by code_simp

section \<open>The invariant holds in every reachable registry\<close>

lemma set_update_subset: "set (AList.update k v al) \<subseteq> insert (k, v) (set al)"
  by (induction al) auto

lemma set_delete_subset: "set (AList.delete k al) \<subseteq> set al"
  by (auto simp: AList.delete_eq)

lemma inv_new: "registry_inv options (StatefulSubscriptions options)"
  by (simp add: registry_inv_def StatefulSubscriptions_def)

lemma inv_upd_client:
  assumes "registry_inv options st" and "client_inv (subscriptionsConfig st) c'"
  shows "registry_inv options (st\<lparr> clients := (clients st)(cid \<mapsto> c') \<rparr>)"
  using assms by (simp add: registry_inv_def)

lemma inv_client:
  assumes "registry_inv options st" and "clients st cid = Some c"
  shows "client_inv (subscriptionsConfig st) c"
  using assms by (simp add: registry_inv_def)

lemma inv_client_or_new:
  assumes "registry_inv options st"
  shows "client_inv (subscriptionsConfig st) (client_or_new st cid)"
proof (cases "clients st cid")
  case None
  then show ?thesis by (simp add: client_or_new_def createClientState_def client_inv_def)
next
  case (Some c)
  then show ?thesis using inv_client [OF assms Some] by (simp add: client_or_new_def)
qed

lemma inv_logged: "registry_inv options (st\<lparr> logged := l \<rparr>) = registry_inv options st"
  by (simp add: registry_inv_def)

lemma client_inv_set:
  assumes "client_inv cfgs c" and "sub_wf cfgs k s"
    and "subscriptions c' = subs_set (subscriptions c) k s"
  shows "client_inv cfgs c'"
proof -
  have "distinct (map fst (subscriptions c'))"
    using assms(1,3) by (simp add: client_inv_def subs_set_def distinct_update)
  moreover have "\<forall>(k', s') \<in> set (subscriptions c'). sub_wf cfgs k' s'"
  proof -
    have "set (subscriptions c') \<subseteq> insert (k, s) (set (subscriptions c))"
      using assms(3) set_update_subset [of k s "subscriptions c"] by (simp add: subs_set_def)
    then show ?thesis using assms(1,2) by (auto simp: client_inv_def)
  qed
  ultimately show ?thesis by (simp add: client_inv_def)
qed

lemma client_inv_delete:
  assumes "client_inv cfgs c" and "subscriptions c' = subs_delete (subscriptions c) k"
  shows "client_inv cfgs c'"
proof -
  have "distinct (map fst (subscriptions c'))"
    using assms by (simp add: client_inv_def subs_delete_def distinct_delete)
  moreover have "set (subscriptions c') \<subseteq> set (subscriptions c)"
    using assms(2) set_delete_subset [of k "subscriptions c"] by (simp add: subs_delete_def)
  ultimately show ?thesis using assms(1) by (auto simp: client_inv_def)
qed

lemma client_inv_clear: "subscriptions c' = [] \<Longrightarrow> client_inv cfgs c'"
  by (simp add: client_inv_def)

lemma inv_init:
  assumes "registry_inv options st"
  shows "registry_inv options (addSubscriptionInit st cid payload)"
proof -
  have "client_inv (subscriptionsConfig st) ((client_or_new st cid)\<lparr> init := payload \<rparr>)"
    using inv_client_or_new [OF assms, of cid] by (simp add: client_inv_def)
  then show ?thesis
    unfolding addSubscriptionInit_def by (rule inv_upd_client [OF assms])
qed

lemma new_subscription_wf:
  assumes "cfgs (info_name s) = Some cfg"
  shows "sub_wf cfgs (subscription_identifier s) (new_subscription h s cfg vars sid ty)"
  using assms
  by (cases "info_alias s")
     (auto simp: sub_wf_def new_subscription_def subscription_identifier_def Let_def)

lemma inv_add:
  assumes inv: "registry_inv options st"
  shows "registry_inv options (addSubscription h st cid query vars sid ty)"
proof -
  let ?c = "client_or_new st cid"
  have c: "client_inv (subscriptionsConfig st) ?c"
    using inv by (rule inv_client_or_new)
  have st1: "registry_inv options (st\<lparr> clients := (clients st)(cid \<mapsto> ?c) \<rparr>)"
    using inv c by (rule inv_upd_client)
  show ?thesis
  proof (cases "extractSubscriptionQueryInfo h query vars")
    case (Inl e)
    then show ?thesis using st1 by (simp add: addSubscription_def Let_def inv_logged)
  next
    case (Inr r)
    show ?thesis
    proof (cases r)
      case None
      then show ?thesis using Inr st1 by (simp add: addSubscription_def Let_def)
    next
      case (Some s)
      show ?thesis
      proof (cases "subs_has (subscriptions ?c) (subscription_identifier s)")
        case True
        then show ?thesis using Inr Some st1 by (simp add: addSubscription_def Let_def)
      next
        case nothas: False
        show ?thesis
        proof (cases "subscriptionsConfig st (info_name s)")
          case None
          then show ?thesis using Inr Some nothas st1 by (simp add: addSubscription_def Let_def)
        next
          case cfg: (Some cfg)
          let ?sub = "new_subscription h s cfg vars sid ty"
          let ?c' = "?c\<lparr> subscriptions := subs_set (subscriptions ?c) (subscription_identifier s) ?sub,
                       ids := (case sub_id ?sub of None \<Rightarrow> ids ?c
                               | Some i \<Rightarrow> (ids ?c)(i \<mapsto> subscription_identifier s)) \<rparr>"
          have wf: "sub_wf (subscriptionsConfig st) (subscription_identifier s) ?sub"
            using cfg by (rule new_subscription_wf)
          have "client_inv (subscriptionsConfig st) ?c'"
            using c wf by (rule client_inv_set) simp
          then have "registry_inv options (st\<lparr> clients := (clients st)(cid \<mapsto> ?c') \<rparr>)"
            by (rule inv_upd_client [OF inv])
          then show ?thesis
            using Inr Some nothas cfg by (simp add: addSubscription_def Let_def)
        qed
      qed
    qed
  qed
qed

lemma lastValue_wf: "sub_wf cfgs k s \<Longrightarrow> sub_wf cfgs k (s\<lparr> sub_lastValue := v \<rparr>)"
  by (auto simp: sub_wf_def split: option.splits)

lemma updateSubscriptionState_registry:
  assumes "updateSubscriptionState st sto cid result = Inr (st', sto')"
  shows "st' = st \<or>
         (\<exists>c k s v. clients st cid = Some c \<and> subs_get (subscriptions c) k = Some s
            \<and> st' = st\<lparr> clients := (clients st)(cid \<mapsto>
                   c\<lparr> subscriptions := subs_set (subscriptions c) k (s\<lparr> sub_lastValue := v \<rparr>) \<rparr>) \<rparr>)"
  using assms
  by (auto simp: updateSubscriptionState_def Let_def
           split: sum.splits option.splits prod.splits if_splits)

lemma inv_update:
  assumes inv: "registry_inv options st"
    and upd: "updateSubscriptionState st sto cid result = Inr (st', sto')"
  shows "registry_inv options st'"
proof -
  from updateSubscriptionState_registry [OF upd]
  consider (same) "st' = st"
    | (hit) c k s v where "clients st cid = Some c" "subs_get (subscriptions c) k = Some s"
        "st' = st\<lparr> clients := (clients st)(cid \<mapsto>
                 c\<lparr> subscriptions := subs_set (subscriptions c) k (s\<lparr> sub_lastValue := v \<rparr>) \<rparr>) \<rparr>"
    by blast
  then show ?thesis
  proof cases
    case same
    then show ?thesis using inv by simp
  next
    case hit
    have c: "client_inv (subscriptionsConfig st) c" using inv hit(1) by (rule inv_client)
    have "(k, s) \<in> set (subscriptions c)"
      using hit(2) by (simp add: subs_get_def map_of_SomeD)
    then have "sub_wf (subscriptionsConfig st) k s"
      using c by (auto simp: client_inv_def)
    then have wf: "sub_wf (subscriptionsConfig st) k (s\<lparr> sub_lastValue := v \<rparr>)"
      by (rule lastValue_wf)
    have "client_inv (subscriptionsConfig st)
            (c\<lparr> subscriptions := subs_set (subscriptions c) k (s\<lparr> sub_lastValue := v \<rparr>) \<rparr>)"
      using c wf by (rule client_inv_set) simp
    then show ?thesis
      unfolding hit(3) by (rule inv_upd_client [OF inv])
  qed
qed

lemma inv_remove:
  assumes inv: "registry_inv options st"
  shows "registry_inv options (removeSubscription st cid sid)"
proof (cases "clients st cid")
  case None
  then show ?thesis using inv by (simp add: removeSubscription_def)
next
  case (Some c)
  have c: "client_inv (subscriptionsConfig st) c" using inv Some by (rule inv_client)
  show ?thesis
  proof (cases "ids c sid")
    case None
    then show ?thesis using inv Some by (simp add: removeSubscription_def)
  next
    case k: (Some k)
    have "client_inv (subscriptionsConfig st)
            (c\<lparr> subscriptions := subs_delete (subscriptions c) k, ids := (ids c)(sid := None) \<rparr>)"
      using c by (rule client_inv_delete) simp
    then have "registry_inv options (st\<lparr> clients := (clients st)(cid \<mapsto>
            c\<lparr> subscriptions := subs_delete (subscriptions c) k, ids := (ids c)(sid := None) \<rparr>) \<rparr>)"
      by (rule inv_upd_client [OF inv])
    then show ?thesis using inv Some k by (simp add: removeSubscription_def)
  qed
qed

lemma inv_clear:
  assumes inv: "registry_inv options st"
  shows "registry_inv options (removeAllSubscriptions st cid)"
proof (cases "clients st cid")
  case None
  then show ?thesis using inv by (simp add: removeAllSubscriptions_def)
next
  case (Some c)
  have "client_inv (subscriptionsConfig st) (c\<lparr> subscriptions := [], ids := Map.empty \<rparr>)"
    by (rule client_inv_clear) simp
  then have "registry_inv options (st\<lparr> clients := (clients st)(cid \<mapsto>
          c\<lparr> subscriptions := [], ids := Map.empty \<rparr>) \<rparr>)"
    by (rule inv_upd_client [OF inv])
  then show ?thesis using Some by (simp add: removeAllSubscriptions_def)
qed

lemma reachable_inv: "reachable options st \<Longrightarrow> registry_inv options st"
proof (induction rule: reachable.induct)
  case r_new
  show ?case by (rule inv_new)
next
  case (r_init st clientId payload)
  then show ?case by (simp add: inv_init)
next
  case (r_add st h clientId query variables subscriptionId subscriptionType)
  then show ?case by (simp add: inv_add)
next
  case (r_update st sto clientId result st' sto')
  then show ?case using inv_update by blast
next
  case (r_remove st clientId subscriptionId)
  then show ?case by (simp add: inv_remove)
next
  case (r_clear st clientId)
  then show ?case by (simp add: inv_clear)
qed

section \<open>Registration\<close>

subsection \<open>The outcomes of a registration\<close>

lemma addSubscription_error:
  assumes "extractSubscriptionQueryInfo h query vars = Inl e"
  shows "addSubscription h st cid query vars sid ty =
           st\<lparr> clients := (clients st)(cid \<mapsto> client_or_new st cid),
               logged := logged st @ [LogError ''Error parsing GraphQL query'' e] \<rparr>"
  using assms by (simp add: addSubscription_def Let_def)

lemma addSubscription_no_subscription:
  assumes "extractSubscriptionQueryInfo h query vars = Inr None"
  shows "addSubscription h st cid query vars sid ty =
           st\<lparr> clients := (clients st)(cid \<mapsto> client_or_new st cid) \<rparr>"
  using assms by (simp add: addSubscription_def Let_def)

lemma addSubscription_present:
  assumes "extractSubscriptionQueryInfo h query vars = Inr (Some s)"
    and "subs_has (subscriptions (client_or_new st cid)) (subscription_identifier s)"
  shows "addSubscription h st cid query vars sid ty =
           st\<lparr> clients := (clients st)(cid \<mapsto> client_or_new st cid) \<rparr>"
  using assms by (simp add: addSubscription_def Let_def)

lemma addSubscription_unconfigured:
  assumes "extractSubscriptionQueryInfo h query vars = Inr (Some s)"
    and "subscriptionsConfig st (info_name s) = None"
  shows "addSubscription h st cid query vars sid ty =
           st\<lparr> clients := (clients st)(cid \<mapsto> client_or_new st cid) \<rparr>"
  using assms by (simp add: addSubscription_def Let_def)

lemma addSubscription_created:
  assumes "extractSubscriptionQueryInfo h query vars = Inr (Some s)"
    and "\<not> subs_has (subscriptions (client_or_new st cid)) (subscription_identifier s)"
    and "subscriptionsConfig st (info_name s) = Some cfg"
  shows "addSubscription h st cid query vars sid ty =
           st\<lparr> clients := (clients st)(cid \<mapsto>
                 (client_or_new st cid)
                   \<lparr> subscriptions := subscriptions (client_or_new st cid)
                        @ [(subscription_identifier s, new_subscription h s cfg vars sid ty)],
                     ids := (case sub_id (new_subscription h s cfg vars sid ty) of
                               None \<Rightarrow> ids (client_or_new st cid)
                             | Some i \<Rightarrow> (ids (client_or_new st cid))(i \<mapsto> subscription_identifier s)) \<rparr>) \<rparr>"
proof -
  have "subscription_identifier s \<notin> fst ` set (subscriptions (client_or_new st cid))"
    using assms(2) by (simp add: subs_has_def map_of_eq_None_iff)
  then have "subs_set (subscriptions (client_or_new st cid)) (subscription_identifier s)
               (new_subscription h s cfg vars sid ty)
             = subscriptions (client_or_new st cid)
                 @ [(subscription_identifier s, new_subscription h s cfg vars sid ty)]"
    unfolding subs_set_def by (rule update_fresh_append)
  then show ?thesis
    using assms by (simp add: addSubscription_def Let_def)
qed

lemma touch_existing:
  assumes "clients st cid = Some c"
  shows "st\<lparr> clients := (clients st)(cid \<mapsto> client_or_new st cid) \<rparr> = st"
proof -
  have "(clients st)(cid \<mapsto> client_or_new st cid) = clients st"
    using assms by (simp add: client_or_new_def fun_upd_idem)
  then show ?thesis by simp
qed

lemma tracked_touch:
  "tracked (st\<lparr> clients := (clients st)(cid \<mapsto> client_or_new st cid) \<rparr>) cid' k = tracked st cid' k"
  by (cases "clients st cid")
     (simp_all add: tracked_def client_or_new_def createClientState_def subs_get_def)

lemma tracked_logged: "tracked (st\<lparr> logged := l \<rparr>) cid k = tracked st cid k"
  by (simp add: tracked_def)

lemma has_tracked:
  "subs_has (subscriptions (client_or_new st cid)) k = (tracked st cid k \<noteq> None)"
  by (cases "clients st cid")
     (simp_all add: tracked_def client_or_new_def createClientState_def subs_get_def subs_has_def)

lemma tracked_created:
  assumes "extractSubscriptionQueryInfo h query vars = Inr (Some s)"
    and "tracked st cid (subscription_identifier s) = None"
    and "subscriptionsConfig st (info_name s) = Some cfg"
  shows "tracked (addSubscription h st cid query vars sid ty) cid (subscription_identifier s)
           = Some (new_subscription h s cfg vars sid ty)"
proof -
  have nh: "\<not> subs_has (subscriptions (client_or_new st cid)) (subscription_identifier s)"
    using assms(2) by (simp add: has_tracked)
  have none: "map_of (subscriptions (client_or_new st cid)) (subscription_identifier s) = None"
    using nh by (simp add: subs_has_def)
  show ?thesis
    unfolding addSubscription_created [OF assms(1) nh assms(3)]
    by (simp add: tracked_def subs_get_def map_add_def none)
qed

section \<open>Only configured subscriptions are tracked\<close>

lemma fold_config_lookup:
  "fold (\<lambda>subscription m. m(opt_name subscription \<mapsto>
           \<lparr> cfg_key = opt_key subscription, cfg_args = opt_args subscription \<rparr>)) options m0 n
     = Some cfg \<Longrightarrow>
   n \<in> opt_name ` set options \<or> m0 n = Some cfg"
proof (induction options arbitrary: m0)
  case Nil
  then show ?case by simp
next
  case (Cons a options)
  from Cons.prems
  have "fold (\<lambda>subscription m. m(opt_name subscription \<mapsto>
           \<lparr> cfg_key = opt_key subscription, cfg_args = opt_args subscription \<rparr>)) options
          (m0(opt_name a \<mapsto> \<lparr> cfg_key = opt_key a, cfg_args = opt_args a \<rparr>)) n = Some cfg"
    by (simp only: fold_simps)
  from Cons.IH [OF this] show ?case
    by (auto split: if_splits)
qed

lemma config_from_options:
  "subscriptionsConfig (StatefulSubscriptions options) n = Some cfg \<Longrightarrow> n \<in> opt_name ` set options"
  using fold_config_lookup [of options Map.empty n cfg]
  by (simp add: StatefulSubscriptions_def)

lemma tracked_wf:
  assumes "reachable options st" and "tracked st cid k = Some s"
  shows "sub_wf (subscriptionsConfig st) k s"
proof -
  from assms(2) obtain c where c: "clients st cid = Some c" and s: "map_of (subscriptions c) k = Some s"
    by (auto simp: tracked_def subs_get_def split: option.splits)
  have "client_inv (subscriptionsConfig st) c"
    using reachable_inv [OF assms(1)] c by (rule inv_client)
  moreover have "(k, s) \<in> set (subscriptions c)" using s by (rule map_of_SomeD)
  ultimately show ?thesis by (auto simp: client_inv_def)
qed

lemma ex_tracked_items:
  "tracked (addSubscription graphql_host (StatefulSubscriptions example_options) ''c1'' query_items
              None None None) ''c1'' ''onItems''
   = Some \<lparr> sub_options = \<lparr> opt_name = ''onItems'', opt_key = ''offset'', opt_args = None \<rparr>,
            sub_name = ''onItems'', sub_fields = [''id'', ''data'', ''offset''],
            sub_params = Some (JObj []), sub_lastValue = JNull, sub_alias = None,
            sub_injectedKey = True, sub_id = None, sub_type = ''start'' \<rparr>"
  by code_simp

text \<open>
  Claim C8. Every tracked subscription of a registry built through the public methods has
  a descriptor configured under its root name, and a registration whose root name has no
  descriptor creates no tracked entry: it leaves every client's subscriptions as they were.
\<close>

theorem tracked_root_name_configured:
  "(reachable options st \<and> tracked st cid k = Some s \<longrightarrow>
      (\<exists>cfg. subscriptionsConfig st (sub_name s) = Some cfg)
      \<and> sub_name s \<in> opt_name ` set options)
   \<and> (extractSubscriptionQueryInfo h query vars = Inr (Some info)
        \<and> subscriptionsConfig st (info_name info) = None \<longrightarrow>
          addSubscription h st cid query vars sid ty
            = st\<lparr> clients := (clients st)(cid \<mapsto> client_or_new st cid) \<rparr>
          \<and> (\<forall>cid' k'. tracked (addSubscription h st cid query vars sid ty) cid' k'
                          = tracked st cid' k'))"
proof (intro conjI impI)
  assume a: "reachable options st \<and> tracked st cid k = Some s"
  then have wf: "sub_wf (subscriptionsConfig st) k s" using tracked_wf by blast
  then show cfg: "\<exists>cfg. subscriptionsConfig st (sub_name s) = Some cfg"
    by (auto simp: sub_wf_def split: option.splits)
  have "subscriptionsConfig (StatefulSubscriptions options) = subscriptionsConfig st"
    using a reachable_inv [of options st] by (simp add: registry_inv_def)
  with cfg show "sub_name s \<in> opt_name ` set options"
    using config_from_options [of options "sub_name s"] by auto
next
  assume b: "extractSubscriptionQueryInfo h query vars = Inr (Some info)
        \<and> subscriptionsConfig st (info_name info) = None"
  then show eq: "addSubscription h st cid query vars sid ty
            = st\<lparr> clients := (clients st)(cid \<mapsto> client_or_new st cid) \<rparr>"
    by (simp add: addSubscription_unconfigured)
  show "\<forall>cid' k'. tracked (addSubscription h st cid query vars sid ty) cid' k' = tracked st cid' k'"
    unfolding eq by (simp add: tracked_touch)
qed

theorem tracked_root_name_configured_witness:
  "reachable example_options
     (addSubscription graphql_host (StatefulSubscriptions example_options) ''c1'' query_items
        None None None)
   \<and> tracked (addSubscription graphql_host (StatefulSubscriptions example_options) ''c1'' query_items
                None None None) ''c1'' ''onItems'' \<noteq> None
   \<and> (\<exists>cfg. subscriptionsConfig
               (addSubscription graphql_host (StatefulSubscriptions example_options) ''c1''
                  query_items None None None) ''onItems'' = Some cfg)
   \<and> subscriptionsConfig (StatefulSubscriptions example_options) ''onOther'' = None
   \<and> tracked (addSubscription graphql_host (StatefulSubscriptions example_options) ''c1'' query_other
                None None None) ''c1'' ''onOther'' = None"
proof -
  let ?st = "addSubscription graphql_host (StatefulSubscriptions example_options) ''c1'' query_items
        None None None"
  let ?s = "\<lparr> sub_options = \<lparr> opt_name = ''onItems'', opt_key = ''offset'', opt_args = None \<rparr>,
            sub_name = ''onItems'', sub_fields = [''id'', ''data'', ''offset''],
            sub_params = Some (JObj []), sub_lastValue = JNull, sub_alias = None,
            sub_injectedKey = True, sub_id = None, sub_type = ''start'' \<rparr>"
  let ?info = "\<lparr> info_name = ''onOther'', info_fields = [''id''],
                 info_alias = None, info_params = JObj [] \<rparr>"
  have r: "reachable example_options ?st" by (rule r_add [OF r_new])
  have t: "tracked ?st ''c1'' ''onItems'' = Some ?s" by (rule ex_tracked_items)
  have n: "subscriptionsConfig (StatefulSubscriptions example_options) ''onOther'' = None"
    by (simp add: StatefulSubscriptions_def example_options_def)
  have e: "extractSubscriptionQueryInfo graphql_host query_other None = Inr (Some ?info)"
    by (rule ex_extract_other)
  have n': "subscriptionsConfig (StatefulSubscriptions example_options) (info_name ?info) = None"
    using n by simp
  have t0: "tracked (StatefulSubscriptions example_options) ''c1'' ''onOther'' = None"
    by (simp add: tracked_def StatefulSubscriptions_def)
  have c: "\<exists>cfg. subscriptionsConfig ?st (sub_name ?s) = Some cfg"
    using tracked_root_name_configured [where options = example_options and st = ?st
        and cid = "''c1''" and k = "''onItems''" and s = ?s] r t
    by blast
  have u: "tracked (addSubscription graphql_host (StatefulSubscriptions example_options) ''c1''
              query_other None None None) ''c1'' ''onOther''
           = tracked (StatefulSubscriptions example_options) ''c1'' ''onOther''"
    using tracked_root_name_configured [where st = "StatefulSubscriptions example_options"
        and cid = "''c1''" and h = graphql_host and query = query_other and vars = None
        and sid = None and ty = None and info = ?info] e n'
    by blast
  show ?thesis using r t c n u t0 by simp
qed

section \<open>The recovery query\<close>

lemma fold_push: "fold (\<lambda>x acc. acc @ [f x]) xs acc0 = acc0 @ map f xs"
  by (induction xs arbitrary: acc0) simp_all

lemma buildRecoveryQuery_spec:
  assumes "sub_alias s \<noteq> Some []"
  shows "buildRecoveryQuery h s =
           recovery_query_spec (JSON_stringify h) (sub_alias s) (opt_name (sub_options s))
             (opt_key (sub_options s)) (sub_lastValue s) (opt_args (sub_options s)) (sub_fields s)"
proof -
  have prefix: "(case sub_alias s of None \<Rightarrow> [] | Some a \<Rightarrow> if a \<noteq> [] then a @ '': '' else [])
                = (case sub_alias s of None \<Rightarrow> [] | Some a \<Rightarrow> a @ '': '')"
    using assms by (cases "sub_alias s") auto
  have args: "(case opt_args (sub_options s) of
                 None \<Rightarrow> args0
               | Some fixed \<Rightarrow>
                   fold (\<lambda>entry acc. acc @ [fst entry @ '': '' @ JSON_stringify h (snd entry)])
                     fixed args0)
              = args0 @ map (\<lambda>(name, value). name @ '': '' @ JSON_stringify h value)
                          (case opt_args (sub_options s) of None \<Rightarrow> [] | Some fixed \<Rightarrow> fixed)"
    for args0
    by (cases "opt_args (sub_options s)") (simp_all add: fold_push case_prod_unfold)
  have paren: "(if length xs > 0 then ''('' @ join '', '' xs @ '')'' else [])
               = (case xs of [] \<Rightarrow> [] | arg # others \<Rightarrow> ''('' @ join '', '' (arg # others) @ '')'')"
    for xs :: "string list"
    by (cases xs) simp_all
  show ?thesis
    unfolding buildRecoveryQuery_def recovery_query_spec_def recovery_arguments_spec_def Let_def
      prefix args paren
    by (simp del: join.simps)
qed

text \<open>
  Claim C2. For every tracked subscription, \<^verbatim>\<open>buildRecoveryQuery\<close> returns exactly the text
  the specification describes, built from the alias recorded, the root name, the key and the
  fixed arguments of the descriptor of that root name, the last value and the tracked
  fields.
\<close>

theorem buildRecoveryQuery_text:
  assumes "reachable options st" and "tracked st cid k = Some s"
  shows "\<exists>cfg. subscriptionsConfig st (sub_name s) = Some cfg
           \<and> buildRecoveryQuery h s =
               recovery_query_spec (JSON_stringify h) (sub_alias s) (sub_name s) (cfg_key cfg)
                 (sub_lastValue s) (cfg_args cfg) (sub_fields s)"
proof -
  have wf: "sub_wf (subscriptionsConfig st) k s" using assms by (rule tracked_wf)
  then obtain cfg where cfg: "subscriptionsConfig st (sub_name s) = Some cfg"
    and opts: "sub_options s = \<lparr> opt_name = sub_name s, opt_key = cfg_key cfg, opt_args = cfg_args cfg \<rparr>"
    and al: "sub_alias s \<noteq> Some []"
    by (auto simp: sub_wf_def split: option.splits)
  show ?thesis
    using cfg buildRecoveryQuery_spec [OF al, of h] by (simp add: opts)
qed

lemma ex_tracked_feed:
  "tracked (addSubscription graphql_host (StatefulSubscriptions fixed_options) ''c1'' query_feed
              (Some [(''lastValue'', JNum 42)]) None None) ''c1'' ''Feed''
   = Some \<lparr> sub_options = \<lparr> opt_name = ''onItems'', opt_key = ''offset'',
                opt_args = Some [(''filter'', JStr ''important''), (''limit'', JNum 10)] \<rparr>,
            sub_name = ''onItems'', sub_fields = [''id'', ''offset''],
            sub_params = Some (JObj []), sub_lastValue = JNum 42, sub_alias = Some ''Feed'',
            sub_injectedKey = False, sub_id = None, sub_type = ''start'' \<rparr>"
  by code_simp

theorem buildRecoveryQuery_text_witness:
  "reachable fixed_options
     (addSubscription graphql_host (StatefulSubscriptions fixed_options) ''c1'' query_feed
        (Some [(''lastValue'', JNum 42)]) None None)
   \<and> (\<exists>s. tracked (addSubscription graphql_host (StatefulSubscriptions fixed_options) ''c1'' query_feed
                (Some [(''lastValue'', JNum 42)]) None None) ''c1'' ''Feed'' = Some s
          \<and> buildRecoveryQuery graphql_host s =
              ''subscription { Feed: onItems(offset: 42, filter: '' @ [CHR 0x22] @ ''important''
                @ [CHR 0x22] @ '', limit: 10) { id, offset } }'')"
proof -
  let ?st = "addSubscription graphql_host (StatefulSubscriptions fixed_options) ''c1'' query_feed
        (Some [(''lastValue'', JNum 42)]) None None"
  let ?s = "\<lparr> sub_options = \<lparr> opt_name = ''onItems'', opt_key = ''offset'',
                opt_args = Some [(''filter'', JStr ''important''), (''limit'', JNum 10)] \<rparr>,
            sub_name = ''onItems'', sub_fields = [''id'', ''offset''],
            sub_params = Some (JObj []), sub_lastValue = JNum 42, sub_alias = Some ''Feed'',
            sub_injectedKey = False, sub_id = None, sub_type = ''start'' \<rparr>"
  have r: "reachable fixed_options ?st" by (rule r_add [OF r_new])
  have t: "tracked ?st ''c1'' ''Feed'' = Some ?s" by (rule ex_tracked_feed)
  have c: "subscriptionsConfig ?st ''onItems''
             = Some \<lparr> cfg_key = ''offset'',
                      cfg_args = Some [(''filter'', JStr ''important''), (''limit'', JNum 10)] \<rparr>"
    by code_simp
  from buildRecoveryQuery_text [OF r t, of graphql_host] c
  have "buildRecoveryQuery graphql_host ?s =
          recovery_query_spec (JSON_stringify graphql_host) (Some ''Feed'') ''onItems'' ''offset''
            (JNum 42) (Some [(''filter'', JStr ''important''), (''limit'', JNum 10)]) [''id'', ''offset'']"
    by auto
  also have "\<dots> = ''subscription { Feed: onItems(offset: 42, filter: '' @ [CHR 0x22] @ ''important''
                @ [CHR 0x22] @ '', limit: 10) { id, offset } }''"
    by code_simp
  finally show ?thesis using r t by simp
qed

section \<open>Registering twice\<close>

lemma addSubscription_config:
  "subscriptionsConfig (addSubscription h st cid query vars sid ty) = subscriptionsConfig st"
  by (simp add: addSubscription_def Let_def split: sum.splits option.splits)

lemma addSubscription_client:
  "\<exists>c. clients (addSubscription h st cid query vars sid ty) cid = Some c"
  by (simp add: addSubscription_def Let_def split: sum.splits option.splits)

lemma addSubscription_tracked_noop:
  assumes "extractSubscriptionQueryInfo h query vars = Inr (Some info)"
    and "tracked st cid (subscription_identifier info) \<noteq> None"
  shows "addSubscription h st cid query vars sid ty = st"
proof -
  from assms(2) obtain c where c: "clients st cid = Some c"
    by (auto simp: tracked_def split: option.splits)
  have "subs_has (subscriptions (client_or_new st cid)) (subscription_identifier info)"
    using assms(2) by (simp add: has_tracked)
  then have "addSubscription h st cid query vars sid ty
               = st\<lparr> clients := (clients st)(cid \<mapsto> client_or_new st cid) \<rparr>"
    using assms(1) by (simp add: addSubscription_present)
  then show ?thesis using touch_existing [OF c] by simp
qed

lemma clients_touch_existing:
  assumes "clients st cid = Some c"
  shows "(clients st)(cid \<mapsto> client_or_new st cid) = clients st"
  using assms by (simp add: client_or_new_def fun_upd_idem)

lemma addSubscription_twice:
  "clients (addSubscription h (addSubscription h st cid query vars sid ty) cid query vars sid' ty')
     = clients (addSubscription h st cid query vars sid ty)"
proof -
  let ?st' = "addSubscription h st cid query vars sid ty"
  obtain c where c: "clients ?st' cid = Some c"
    using addSubscription_client by blast
  have touch: "(clients ?st')(cid \<mapsto> client_or_new ?st' cid) = clients ?st'"
    using c by (rule clients_touch_existing)
  show ?thesis
  proof (cases "extractSubscriptionQueryInfo h query vars")
    case (Inl e)
    then show ?thesis
      using touch addSubscription_error [OF Inl, of ?st' cid sid' ty'] by simp
  next
    case (Inr r)
    show ?thesis
    proof (cases r)
      case None
      then show ?thesis
        using touch Inr addSubscription_no_subscription [of h query vars ?st' cid sid' ty'] by simp
    next
      case (Some info)
      have e: "extractSubscriptionQueryInfo h query vars = Inr (Some info)"
        using Inr Some by simp
      show ?thesis
      proof (cases "tracked ?st' cid (subscription_identifier info)")
        case (Some s)
        then show ?thesis using addSubscription_tracked_noop [OF e, of ?st' cid sid' ty'] by simp
      next
        case nt': None
        have nocfg: "subscriptionsConfig st (info_name info) = None"
        proof (rule ccontr)
          assume "subscriptionsConfig st (info_name info) \<noteq> None"
          then obtain cfg where cfg: "subscriptionsConfig st (info_name info) = Some cfg" by auto
          show False
          proof (cases "tracked st cid (subscription_identifier info)")
            case None
            from tracked_created [OF e None cfg, of sid ty] nt' show False by simp
          next
            case (Some s)
            then have "?st' = st" using addSubscription_tracked_noop [OF e, of st cid sid ty] by simp
            with Some nt' show False by simp
          qed
        qed
        then have "subscriptionsConfig ?st' (info_name info) = None"
          by (simp add: addSubscription_config)
        from addSubscription_unconfigured [OF e this, of cid sid' ty'] touch
        show ?thesis by simp
      qed
    qed
  qed
qed

lemma distinct_keys_once:
  "distinct (map fst al) \<Longrightarrow> map_of al k = Some v \<Longrightarrow> length (filter (\<lambda>entry. fst entry = k) al) = 1"
proof (induction al)
  case Nil
  then show ?case by simp
next
  case (Cons a al)
  show ?case
  proof (cases "fst a = k")
    case True
    then have "k \<notin> fst ` set al" using Cons.prems(1) by auto
    then have "filter (\<lambda>entry. fst entry = k) al = []"
      by (auto simp: filter_empty_conv)
    then show ?thesis using True by simp
  next
    case False
    then have "map_of al k = Some v" using Cons.prems(2) by (cases a) auto
    then show ?thesis using Cons.IH Cons.prems(1) False by simp
  qed
qed

text \<open>
  Claim C7. A registration under an identity that the client already tracks changes
  nothing. So registering twice in a row leaves the clients as the first registration left
  them, and a registry built through the public methods holds exactly one subscription
  under an identity it tracks.
\<close>

theorem registration_idempotent:
  "(extractSubscriptionQueryInfo h query vars = Inr (Some info)
      \<and> tracked st cid (subscription_identifier info) \<noteq> None \<longrightarrow>
        addSubscription h st cid query vars sid ty = st)
   \<and> clients (addSubscription h (addSubscription h st cid query vars sid ty) cid query vars sid' ty')
        = clients (addSubscription h st cid query vars sid ty)
   \<and> (reachable options st \<and> clients st cid = Some c \<and> tracked st cid k \<noteq> None \<longrightarrow>
        length (filter (\<lambda>entry. fst entry = k) (subscriptions c)) = 1)"
proof (intro conjI impI)
  assume "extractSubscriptionQueryInfo h query vars = Inr (Some info)
      \<and> tracked st cid (subscription_identifier info) \<noteq> None"
  then show "addSubscription h st cid query vars sid ty = st"
    by (simp add: addSubscription_tracked_noop)
next
  show "clients (addSubscription h (addSubscription h st cid query vars sid ty) cid query vars sid' ty')
        = clients (addSubscription h st cid query vars sid ty)"
    by (rule addSubscription_twice)
next
  assume a: "reachable options st \<and> clients st cid = Some c \<and> tracked st cid k \<noteq> None"
  then have "client_inv (subscriptionsConfig st) c"
    using reachable_inv inv_client by blast
  then have d: "distinct (map fst (subscriptions c))" by (simp add: client_inv_def)
  from a obtain s where "map_of (subscriptions c) k = Some s"
    by (auto simp: tracked_def subs_get_def)
  with d show "length (filter (\<lambda>entry. fst entry = k) (subscriptions c)) = 1"
    by (rule distinct_keys_once)
qed

theorem registration_idempotent_witness:
  "tracked (addSubscription graphql_host (StatefulSubscriptions example_options) ''c1'' query_items
              None None None) ''c1'' ''onItems'' \<noteq> None
   \<and> addSubscription graphql_host
        (addSubscription graphql_host (StatefulSubscriptions example_options) ''c1'' query_items
           None None None) ''c1'' query_items None None None
      = addSubscription graphql_host (StatefulSubscriptions example_options) ''c1'' query_items
          None None None
   \<and> (\<exists>c. clients (addSubscription graphql_host (StatefulSubscriptions example_options) ''c1''
                     query_items None None None) ''c1'' = Some c
          \<and> length (filter (\<lambda>entry. fst entry = ''onItems'') (subscriptions c)) = 1)"
proof -
  let ?st = "addSubscription graphql_host (StatefulSubscriptions example_options) ''c1'' query_items
        None None None"
  let ?info = "\<lparr> info_name = ''onItems'', info_fields = [''id'', ''data''],
                 info_alias = None, info_params = JObj [] \<rparr>"
  have r: "reachable example_options ?st" by (rule r_add [OF r_new])
  have t: "tracked ?st ''c1'' ''onItems'' \<noteq> None" using ex_tracked_items by simp
  have e: "extractSubscriptionQueryInfo graphql_host query_items None = Inr (Some ?info)"
    by (rule ex_extract_items)
  have i: "subscription_identifier ?info = ''onItems''"
    by (simp add: subscription_identifier_def)
  obtain c where c: "clients ?st ''c1'' = Some c"
    using addSubscription_client by blast
  note T = registration_idempotent [where h = graphql_host and query = query_items and vars = None
      and info = ?info and st = ?st and cid = "''c1''" and sid = None and ty = None
      and options = example_options and c = c and k = "''onItems''"]
  have 1: "addSubscription graphql_host ?st ''c1'' query_items None None None = ?st"
    using T e t i by simp
  have 2: "length (filter (\<lambda>entry. fst entry = ''onItems'') (subscriptions c)) = 1"
    using T r c t by blast
  show ?thesis using t 1 2 c by blast
qed

section \<open>Restoring after a reconnection\<close>

lemma restoreSubscriptions_known:
  assumes "clients st cid = Some client"
  shows "restoreSubscriptions h st cid =
           ConnectionInit (init client)
           # map (\<lambda>entry. SubscriptionMessage (sub_id (snd entry)) (sub_type (snd entry))
                              (buildRecoveryQuery h (snd entry)))
               (subscriptions client)"
  using assms by (simp add: restoreSubscriptions_def fold_push comp_def)

text \<open>
  Claim C3. For a known client \<^verbatim>\<open>restoreSubscriptions\<close> sends one \<^verbatim>\<open>connection_init\<close>
  message with the stored payload, then one message per tracked subscription, whatever its
  last value, with its recorded type and transport id and the recovery query as payload;
  for an unknown client it sends nothing. The subscriptions come in the order of their
  registration: a registration that creates a subscription adds its message last.
\<close>

theorem restoreSubscriptions_messages:
  "restoreSubscriptions h st cid =
     (case clients st cid of
        None \<Rightarrow> []
      | Some client \<Rightarrow>
          ConnectionInit (init client)
          # map (\<lambda>entry. SubscriptionMessage (sub_id (snd entry)) (sub_type (snd entry))
                             (buildRecoveryQuery h (snd entry)))
              (subscriptions client))
   \<and> (extractSubscriptionQueryInfo h query vars = Inr (Some info)
        \<and> tracked st cid (subscription_identifier info) = None
        \<and> subscriptionsConfig st (info_name info) = Some cfg \<longrightarrow>
          restoreSubscriptions h (addSubscription h st cid query vars sid ty) cid =
            (if clients st cid = None then [ConnectionInit JUndefined]
             else restoreSubscriptions h st cid)
            @ [SubscriptionMessage (sub_id (new_subscription h info cfg vars sid ty))
                 (sub_type (new_subscription h info cfg vars sid ty))
                 (buildRecoveryQuery h (new_subscription h info cfg vars sid ty))])"
proof (intro conjI impI)
  show "restoreSubscriptions h st cid =
     (case clients st cid of
        None \<Rightarrow> []
      | Some client \<Rightarrow>
          ConnectionInit (init client)
          # map (\<lambda>entry. SubscriptionMessage (sub_id (snd entry)) (sub_type (snd entry))
                             (buildRecoveryQuery h (snd entry)))
              (subscriptions client))"
  proof (cases "clients st cid")
    case None
    then show ?thesis by (simp add: restoreSubscriptions_def)
  next
    case (Some client)
    then show ?thesis by (simp add: restoreSubscriptions_known)
  qed
next
  assume a: "extractSubscriptionQueryInfo h query vars = Inr (Some info)
        \<and> tracked st cid (subscription_identifier info) = None
        \<and> subscriptionsConfig st (info_name info) = Some cfg"
  let ?new = "new_subscription h info cfg vars sid ty"
  let ?c = "client_or_new st cid"
  have nh: "\<not> subs_has (subscriptions ?c) (subscription_identifier info)"
    using a by (simp add: has_tracked)
  have st': "clients (addSubscription h st cid query vars sid ty) cid =
          Some (?c\<lparr> subscriptions := subscriptions ?c @ [(subscription_identifier info, ?new)],
                   ids := (case sub_id ?new of
                             None \<Rightarrow> ids ?c
                           | Some i \<Rightarrow> (ids ?c)(i \<mapsto> subscription_identifier info)) \<rparr>)"
    using a nh by (simp add: addSubscription_created)
  have old: "(if clients st cid = None then [ConnectionInit JUndefined]
              else restoreSubscriptions h st cid)
             = ConnectionInit (init ?c)
               # map (\<lambda>entry. SubscriptionMessage (sub_id (snd entry)) (sub_type (snd entry))
                                  (buildRecoveryQuery h (snd entry)))
                   (subscriptions ?c)"
    by (cases "clients st cid")
       (simp_all add: restoreSubscriptions_known client_or_new_def createClientState_def)
  show "restoreSubscriptions h (addSubscription h st cid query vars sid ty) cid =
            (if clients st cid = None then [ConnectionInit JUndefined]
             else restoreSubscriptions h st cid)
            @ [SubscriptionMessage (sub_id ?new) (sub_type ?new) (buildRecoveryQuery h ?new)]"
    unfolding old restoreSubscriptions_known [OF st'] by simp
qed

theorem restoreSubscriptions_messages_witness:
  "restoreSubscriptions graphql_host
     (addSubscription graphql_host
        (addSubscription graphql_host (StatefulSubscriptions example_options) ''c1'' query_items
           None None None)
        ''c1'' query_feed None (Some ''7'') None) ''c1''
   = [ConnectionInit JUndefined,
      SubscriptionMessage None ''start'' ''subscription { onItems { id, data, offset } }'',
      SubscriptionMessage (Some ''7'') ''start'' ''subscription { Feed: onItems { id, offset } }'']
   \<and> restoreSubscriptions graphql_host (StatefulSubscriptions example_options) ''c1'' = []"
proof -
  let ?st0 = "StatefulSubscriptions example_options"
  let ?st1 = "addSubscription graphql_host ?st0 ''c1'' query_items None None None"
  let ?info = "\<lparr> info_name = ''onItems'', info_fields = [''id'', ''offset''],
                 info_alias = Some ''Feed'', info_params = JObj [] \<rparr>"
  let ?cfg = "\<lparr> cfg_key = ''offset'', cfg_args = None \<rparr>"
  have e: "extractSubscriptionQueryInfo graphql_host query_feed None = Inr (Some ?info)"
    by (rule ex_extract_feed)
  have t: "tracked ?st1 ''c1'' (subscription_identifier ?info) = None"
    by code_simp
  have c: "subscriptionsConfig ?st1 (info_name ?info) = Some ?cfg"
    by code_simp
  have k: "clients ?st1 ''c1'' \<noteq> None"
    using addSubscription_client [of graphql_host ?st0 "''c1''" query_items None None None] by auto
  have first: "restoreSubscriptions graphql_host ?st1 ''c1''
        = [ConnectionInit JUndefined,
           SubscriptionMessage None ''start'' ''subscription { onItems { id, data, offset } }'']"
    by code_simp
  have new: "SubscriptionMessage (sub_id (new_subscription graphql_host ?info ?cfg None (Some ''7'') None))
                 (sub_type (new_subscription graphql_host ?info ?cfg None (Some ''7'') None))
                 (buildRecoveryQuery graphql_host (new_subscription graphql_host ?info ?cfg None (Some ''7'') None))
             = SubscriptionMessage (Some ''7'') ''start'' ''subscription { Feed: onItems { id, offset } }''"
    by code_simp
  have none: "clients ?st0 ''c1'' = None" by (simp add: StatefulSubscriptions_def)
  note T = restoreSubscriptions_messages [where h = graphql_host and st = ?st1 and cid = "''c1''"
      and query = query_feed and vars = None and info = ?info and cfg = ?cfg
      and sid = "Some ''7''" and ty = None]
  have 1: "restoreSubscriptions graphql_host
             (addSubscription graphql_host ?st1 ''c1'' query_feed None (Some ''7'') None) ''c1''
           = restoreSubscriptions graphql_host ?st1 ''c1''
             @ [SubscriptionMessage (Some ''7'') ''start'' ''subscription { Feed: onItems { id, offset } }'']"
    using T e t c k new by auto
  have 2: "restoreSubscriptions graphql_host ?st0 ''c1'' = []"
    using restoreSubscriptions_messages [where h = graphql_host and st = ?st0 and cid = "''c1''"] none
    by simp
  show ?thesis using 1 2 first by simp
qed

section \<open>Queries that cannot be introspected\<close>

lemma extract_syntax_error:
  assumes "parse h query = None"
  shows "extractSubscriptionQueryInfo h query vars
           = Inl (Error ''Error parsing GraphQL query'' GraphQLError)"
  using assms
  by (simp add: extractSubscriptionQueryInfo_def extractSubscriptionQueryInfo_body_def)

lemma extract_error_wrapped:
  assumes "extractSubscriptionQueryInfo h query vars = Inl e"
  shows "\<exists>cause. e = Error ''Error parsing GraphQL query'' cause"
  using assms
  by (auto simp: extractSubscriptionQueryInfo_def split: sum.splits)

text \<open>
  Claim C6. \<^verbatim>\<open>addSubscription\<close> returns a registry for every client and every query
  text: what the introspector throws is a value that it consumes. When \<^verbatim>\<open>parse\<close> rejects
  the text, the introspector throws its wrapped error, and whenever the introspector throws,
  the error is logged and the call creates no tracked subscription: every client tracks
  what it tracked before, the calling client is the one stored, or a new, empty one, and the
  other clients are untouched.
\<close>

theorem addSubscription_swallows_errors:
  "(parse h query = None \<longrightarrow>
      extractSubscriptionQueryInfo h query vars
        = Inl (Error ''Error parsing GraphQL query'' GraphQLError))
   \<and> (extractSubscriptionQueryInfo h query vars = Inl e \<longrightarrow>
        addSubscription h st cid query vars sid ty
          = st\<lparr> clients := (clients st)(cid \<mapsto> client_or_new st cid),
                logged := logged st @ [LogError ''Error parsing GraphQL query'' e] \<rparr>
        \<and> (\<forall>cid' k. tracked (addSubscription h st cid query vars sid ty) cid' k = tracked st cid' k)
        \<and> clients (addSubscription h st cid query vars sid ty) cid
            = Some (case clients st cid of None \<Rightarrow> createClientState | Some c \<Rightarrow> c)
        \<and> subscriptions createClientState = []
        \<and> (\<forall>cid'. cid' \<noteq> cid \<longrightarrow>
              clients (addSubscription h st cid query vars sid ty) cid' = clients st cid'))"
proof (intro conjI impI)
  assume "parse h query = None"
  then show "extractSubscriptionQueryInfo h query vars
        = Inl (Error ''Error parsing GraphQL query'' GraphQLError)"
    by (rule extract_syntax_error)
next
  assume e: "extractSubscriptionQueryInfo h query vars = Inl e"
  show eq: "addSubscription h st cid query vars sid ty
          = st\<lparr> clients := (clients st)(cid \<mapsto> client_or_new st cid),
                logged := logged st @ [LogError ''Error parsing GraphQL query'' e] \<rparr>"
    using e by (rule addSubscription_error)
  have "tracked (st\<lparr> clients := (clients st)(cid \<mapsto> client_or_new st cid),
                logged := logged st @ [LogError ''Error parsing GraphQL query'' e] \<rparr>) cid' k
        = tracked st cid' k" for cid' k
    using tracked_touch [of st cid cid' k]
    by (simp add: tracked_def)
  then show "\<forall>cid' k. tracked (addSubscription h st cid query vars sid ty) cid' k = tracked st cid' k"
    unfolding eq by blast
  show "clients (addSubscription h st cid query vars sid ty) cid
            = Some (case clients st cid of None \<Rightarrow> createClientState | Some c \<Rightarrow> c)"
    unfolding eq by (simp add: client_or_new_def)
  show "\<forall>cid'. cid' \<noteq> cid \<longrightarrow>
              clients (addSubscription h st cid query vars sid ty) cid' = clients st cid'"
    unfolding eq by simp
next
  show "subscriptions createClientState = []" by (simp add: createClientState_def)
qed

theorem addSubscription_swallows_errors_witness:
  "parse graphql_host ''subscription { this is completely invalid GraphQL! }'' = None
   \<and> logged (addSubscription graphql_host (StatefulSubscriptions example_options) ''c1''
               ''subscription { this is completely invalid GraphQL! }'' None None None)
       = [LogError ''Error parsing GraphQL query''
            (Error ''Error parsing GraphQL query'' GraphQLError)]
   \<and> clients (addSubscription graphql_host (StatefulSubscriptions example_options) ''c1''
               ''subscription { this is completely invalid GraphQL! }'' None None None) ''c1''
       = Some createClientState
   \<and> logged (addSubscription graphql_host (StatefulSubscriptions example_options) ''c1''
               query_loop None None None)
       = [LogError ''Error parsing GraphQL query''
            (Error ''Error parsing GraphQL query'' RangeError)]
   \<and> tracked (addSubscription graphql_host (StatefulSubscriptions example_options) ''c1''
                query_loop None None None) ''c1'' ''onItems'' = None"
proof -
  let ?q = "''subscription { this is completely invalid GraphQL! }''"
  let ?st0 = "StatefulSubscriptions example_options"
  let ?e = "Error ''Error parsing GraphQL query'' GraphQLError"
  have p: "parse graphql_host ?q = None" by code_simp
  note T = addSubscription_swallows_errors [where h = graphql_host and query = ?q and vars = None
      and e = ?e and st = ?st0 and cid = "''c1''" and sid = None and ty = None]
  have x: "extractSubscriptionQueryInfo graphql_host ?q None = Inl ?e"
    using T p by blast
  have eq: "addSubscription graphql_host ?st0 ''c1'' ?q None None None
          = ?st0\<lparr> clients := (clients ?st0)(''c1'' \<mapsto> client_or_new ?st0 ''c1''),
                logged := logged ?st0 @ [LogError ''Error parsing GraphQL query'' ?e] \<rparr>"
    using T x by blast
  have l: "logged (addSubscription graphql_host ?st0 ''c1'' ?q None None None)
             = [LogError ''Error parsing GraphQL query'' ?e]"
    unfolding eq by (simp add: StatefulSubscriptions_def)
  have c: "clients (addSubscription graphql_host ?st0 ''c1'' ?q None None None) ''c1''
             = Some createClientState"
    unfolding eq by (simp add: StatefulSubscriptions_def client_or_new_def)
  let ?r = "Error ''Error parsing GraphQL query'' RangeError"
  note L = addSubscription_swallows_errors [where h = graphql_host and query = query_loop
      and vars = None and e = ?r and st = ?st0 and cid = "''c1''" and sid = None and ty = None,
      THEN conjunct2]
  have xl: "extractSubscriptionQueryInfo graphql_host query_loop None = Inl ?r"
    by (rule ex_extract_loop)
  have eql: "addSubscription graphql_host ?st0 ''c1'' query_loop None None None
          = ?st0\<lparr> clients := (clients ?st0)(''c1'' \<mapsto> client_or_new ?st0 ''c1''),
                logged := logged ?st0 @ [LogError ''Error parsing GraphQL query'' ?r] \<rparr>"
    using L xl by blast
  have ll: "logged (addSubscription graphql_host ?st0 ''c1'' query_loop None None None)
             = [LogError ''Error parsing GraphQL query'' ?r]"
    unfolding eql by (simp add: StatefulSubscriptions_def)
  have "tracked (addSubscription graphql_host ?st0 ''c1'' query_loop None None None) ''c1'' ''onItems''
          = tracked ?st0 ''c1'' ''onItems''"
    using L xl by blast
  then have tl: "tracked (addSubscription graphql_host ?st0 ''c1'' query_loop None None None)
                   ''c1'' ''onItems'' = None"
    by (simp add: tracked_def StatefulSubscriptions_def)
  show ?thesis using p l c ll tl by simp
qed

section \<open>The initial last value\<close>

lemma initial_lastValue_variables:
  assumes "js_in h vs ''lastValue''"
  shows "initial_lastValue h s config (Some vs) = js_get h (JObj vs) ''lastValue''"
  using assms by (simp add: initial_lastValue_def)

lemma initial_lastValue_params:
  assumes "variables = None \<or> (\<exists>vs. variables = Some vs \<and> \<not> js_in h vs ''lastValue'')"
  shows "initial_lastValue h s config variables =
           (if truthy (js_get h (info_params s) (cfg_key config))
            then js_get h (info_params s) (cfg_key config) else JNull)"
  using assms by (auto simp: initial_lastValue_def)

text \<open>
  Claim C4 says that, without a \<^verbatim>\<open>lastValue\<close> variable, a value that the query gives to
  the key argument becomes the initial last value, whatever it is. The code takes it through
  \<^verbatim>\<open>|| null\<close>, so a falsy one is lost: registering
  \<^verbatim>\<open>subscription { onItems(offset: 0) { id offset } }\<close> extracts \<^verbatim>\<open>offset: 0\<close> and tracks
  the subscription with the last value \<^verbatim>\<open>null\<close>.
\<close>

theorem initial_lastValue_zero_lost:
  "extractSubscriptionQueryInfo graphql_host query_zero None =
     Inr (Some \<lparr> info_name = ''onItems'', info_fields = [''id'', ''offset''],
                 info_alias = None, info_params = JObj [(''offset'', JNum 0)] \<rparr>)
   \<and> map_option sub_lastValue
        (tracked (addSubscription graphql_host (StatefulSubscriptions example_options) ''c1''
                    query_zero None None None) ''c1'' ''onItems'') = Some JNull
   \<and> map_option sub_params
        (tracked (addSubscription graphql_host (StatefulSubscriptions example_options) ''c1''
                    query_zero None None None) ''c1'' ''onItems'')
       = Some (Some (JObj [(''offset'', JNum 0)]))"
proof -
  have 1: "map_option sub_lastValue
        (tracked (addSubscription graphql_host (StatefulSubscriptions example_options) ''c1''
                    query_zero None None None) ''c1'' ''onItems'') = Some JNull"
    by code_simp
  have 2: "map_option sub_params
        (tracked (addSubscription graphql_host (StatefulSubscriptions example_options) ''c1''
                    query_zero None None None) ''c1'' ''onItems'')
       = Some (Some (JObj [(''offset'', JNum 0)]))"
    by code_simp
  show ?thesis using ex_extract_zero [of None] 1 2 by simp
qed

section \<open>Observing results\<close>

lemma deref_bound: "deref sto a = Some ps \<Longrightarrow> a < length sto \<and> sto ! a = ps"
  by (simp add: deref_def split: if_splits)

lemma resultInfo_first_key:
  assumes "deref sto result = Some ((k, data) # rest)"
  shows "extractSubscriptionResultInfo sto result = Inr (Some k, data)"
  using assms by (simp add: extractSubscriptionResultInfo_def obj_get_def)

lemma updateSubscriptionState_hit:
  assumes c: "clients st cid = Some client"
    and root: "deref sto result = Some ((k, data) # rest)"
    and s: "subs_get (subscriptions client) k = Some s"
    and cfg: "subscriptionsConfig st (sub_name s) = Some cfg"
    and v: "get_property sto data (cfg_key cfg) = Inr v"
    and def: "v \<noteq> JUndefined"
  shows "updateSubscriptionState st sto cid result =
           Inr (st\<lparr> clients := (clients st)(cid \<mapsto>
                      client\<lparr> subscriptions :=
                        subs_set (subscriptions client) k (s\<lparr> sub_lastValue := v \<rparr>) \<rparr>) \<rparr>,
                if sub_injectedKey s
                then (sto @ [obj_delete (spread sto data) (cfg_key cfg)])
                       [result := (k, JRef (length sto)) # rest]
                else sto)"
proof -
  have at: "sto ! result = (k, data) # rest" using root by (simp add: deref_bound)
  have set: "obj_set (sto ! result) k (JRef (length sto)) = (k, JRef (length sto)) # rest"
    by (simp add: at obj_set_def)
  show ?thesis
    unfolding updateSubscriptionState_def
    by (simp add: c resultInfo_first_key [OF root] s cfg v def set Let_def)
qed

lemma updateSubscriptionState_key:
  assumes "updateSubscriptionState st sto cid result = Inr (st', sto')"
    and "deref sto result = Some ((r, data) # rest)"
  shows "st' = st \<or>
         (\<exists>c s v. clients st cid = Some c \<and> subs_get (subscriptions c) r = Some s
            \<and> st' = st\<lparr> clients := (clients st)(cid \<mapsto>
                   c\<lparr> subscriptions := subs_set (subscriptions c) r (s\<lparr> sub_lastValue := v \<rparr>) \<rparr>) \<rparr>)"
  using assms(1)
  by (auto simp: updateSubscriptionState_def resultInfo_first_key [OF assms(2)] Let_def
           split: sum.splits option.splits if_splits)

lemma updateSubscriptionState_other_key:
  assumes "updateSubscriptionState st sto cid result = Inr (st', sto')"
    and "deref sto result = Some ((r, data) # rest)"
    and "r \<noteq> a"
  shows "tracked st' cid' a = tracked st cid' a"
proof -
  from updateSubscriptionState_key [OF assms(1,2)]
  consider (same) "st' = st"
    | (hit) c s v where "clients st cid = Some c"
        "st' = st\<lparr> clients := (clients st)(cid \<mapsto>
                 c\<lparr> subscriptions := subs_set (subscriptions c) r (s\<lparr> sub_lastValue := v \<rparr>) \<rparr>) \<rparr>"
    by blast
  then show ?thesis
  proof cases
    case same
    then show ?thesis by simp
  next
    case hit
    show ?thesis
      using assms(3) hit(1)
      unfolding hit(2)
      by (simp add: tracked_def subs_get_def subs_set_def update_conv')
  qed
qed

lemma tracked_after_hit:
  assumes "clients st cid = Some client"
  shows "tracked (st\<lparr> clients := (clients st)(cid \<mapsto>
                      client\<lparr> subscriptions :=
                        subs_set (subscriptions client) k s' \<rparr>) \<rparr>) cid k = Some s'"
  by (simp add: tracked_def subs_get_def subs_set_def update_conv')

lemma deleted_key_absent:
  "obj_get (obj_delete ps k) k = JUndefined" "\<not> obj_has (obj_delete ps k) k"
  by (simp_all add: obj_get_def obj_has_def obj_delete_def delete_conv')

lemma deleted_key_others:
  "f \<noteq> k \<Longrightarrow> obj_get (obj_delete ps k) f = obj_get ps f"
  by (simp add: obj_get_def obj_delete_def delete_conv')


lemma store_after_strip:
  assumes "deref sto result = Some root"
  shows "deref ((sto @ [new])[result := root']) result = Some root'"
    and "deref ((sto @ [new])[result := root']) (length sto) = Some new"
    and "a < length sto \<Longrightarrow> a \<noteq> result \<Longrightarrow>
         deref ((sto @ [new])[result := root']) a = deref sto a"
proof -
  have lt: "result < length sto" using assms by (simp add: deref_bound)
  show "deref ((sto @ [new])[result := root']) result = Some root'"
    using lt by (simp add: deref_def)
  show "deref ((sto @ [new])[result := root']) (length sto) = Some new"
    using lt by (simp add: deref_def)
  show "a < length sto \<Longrightarrow> a \<noteq> result \<Longrightarrow>
         deref ((sto @ [new])[result := root']) a = deref sto a"
    by (simp add: deref_def nth_append)
qed

lemma property_of_ref:
  "deref sto a = Some ps \<Longrightarrow> get_property sto (JRef a) k = Inr (obj_get ps k)"
  by (simp add: get_property_def)

lemma spread_of_ref: "deref sto a = Some ps \<Longrightarrow> spread sto (JRef a) = ps"
  by (simp add: spread_def)

lemma ex_config_items:
  "subscriptionsConfig
     (addSubscription graphql_host (StatefulSubscriptions example_options) ''c1'' query_items
        None None None) ''onItems''
   = Some \<lparr> cfg_key = ''offset'', cfg_args = None \<rparr>"
  by code_simp

text \<open>
  Claim C1. A registration whose descriptor key is not among the extracted fields tracks
  the subscription with the key appended to its fields and marked as injected. From then
  on, when a payload whose only root key is the identity of such a subscription carries a
  data object that defines the key field, \<^verbatim>\<open>updateSubscriptionState\<close> returns, the tracked
  last value is that key value, and the data object that the payload holds under its root
  key has no key field.
\<close>

theorem key_injection_round_trip:
  "(extractSubscriptionQueryInfo h query vars = Inr (Some info)
      \<and> tracked st cid (subscription_identifier info) = None
      \<and> subscriptionsConfig st (info_name info) = Some cfg
      \<and> cfg_key cfg \<notin> set (info_fields info) \<longrightarrow>
        (\<exists>s. tracked (addSubscription h st cid query vars sid ty) cid (subscription_identifier info)
                = Some s
              \<and> sub_fields s = info_fields info @ [cfg_key cfg]
              \<and> sub_injectedKey s
              \<and> sub_name s = info_name info)
        \<and> subscriptionsConfig (addSubscription h st cid query vars sid ty) (info_name info)
            = Some cfg)
   \<and> (tracked st cid k = Some s
        \<and> sub_injectedKey s
        \<and> subscriptionsConfig st (sub_name s) = Some cfg
        \<and> deref sto result = Some [(k, data)]
        \<and> get_property sto data (cfg_key cfg) = Inr v
        \<and> v \<noteq> JUndefined \<longrightarrow>
          (\<exists>st' sto'.
              updateSubscriptionState st sto cid result = Inr (st', sto')
              \<and> map_option sub_lastValue (tracked st' cid k) = Some v
              \<and> deref sto' result = Some [(k, JRef (length sto))]
              \<and> deref sto' (length sto) = Some (obj_delete (spread sto data) (cfg_key cfg))
              \<and> get_property sto' (JRef (length sto)) (cfg_key cfg) = Inr JUndefined
              \<and> \<not> obj_has (spread sto' (JRef (length sto))) (cfg_key cfg)))"
proof (intro conjI impI)
  assume a: "extractSubscriptionQueryInfo h query vars = Inr (Some info)
      \<and> tracked st cid (subscription_identifier info) = None
      \<and> subscriptionsConfig st (info_name info) = Some cfg
      \<and> cfg_key cfg \<notin> set (info_fields info)"
  then have "tracked (addSubscription h st cid query vars sid ty) cid (subscription_identifier info)
               = Some (new_subscription h info cfg vars sid ty)"
    by (simp add: tracked_created)
  moreover have "sub_fields (new_subscription h info cfg vars sid ty) = info_fields info @ [cfg_key cfg]"
    "sub_injectedKey (new_subscription h info cfg vars sid ty)"
    "sub_name (new_subscription h info cfg vars sid ty) = info_name info"
    using a by (simp_all add: new_subscription_def Let_def)
  ultimately show "\<exists>s. tracked (addSubscription h st cid query vars sid ty) cid
                (subscription_identifier info) = Some s
              \<and> sub_fields s = info_fields info @ [cfg_key cfg]
              \<and> sub_injectedKey s
              \<and> sub_name s = info_name info"
    by blast
  show "subscriptionsConfig (addSubscription h st cid query vars sid ty) (info_name info) = Some cfg"
    using a by (simp add: addSubscription_config)
next
  assume b: "tracked st cid k = Some s
        \<and> sub_injectedKey s
        \<and> subscriptionsConfig st (sub_name s) = Some cfg
        \<and> deref sto result = Some [(k, data)]
        \<and> get_property sto data (cfg_key cfg) = Inr v
        \<and> v \<noteq> JUndefined"
  then obtain client where c: "clients st cid = Some client"
    and s: "subs_get (subscriptions client) k = Some s"
    by (auto simp: tracked_def split: option.splits)
  let ?new = "obj_delete (spread sto data) (cfg_key cfg)"
  let ?st' = "st\<lparr> clients := (clients st)(cid \<mapsto>
                      client\<lparr> subscriptions :=
                        subs_set (subscriptions client) k (s\<lparr> sub_lastValue := v \<rparr>) \<rparr>) \<rparr>"
  let ?sto' = "(sto @ [?new])[result := [(k, JRef (length sto))]]"
  have root: "deref sto result = Some [(k, data)]" using b by simp
  have upd: "updateSubscriptionState st sto cid result = Inr (?st', ?sto')"
    using updateSubscriptionState_hit [OF c root s, of cfg v] b by simp
  have lv: "map_option sub_lastValue (tracked ?st' cid k) = Some v"
    using tracked_after_hit [OF c, of k "s\<lparr> sub_lastValue := v \<rparr>"] by simp
  have d1: "deref ?sto' result = Some [(k, JRef (length sto))]"
    using root by (rule store_after_strip(1))
  have d2: "deref ?sto' (length sto) = Some ?new"
    using root by (rule store_after_strip(2))
  have g: "get_property ?sto' (JRef (length sto)) (cfg_key cfg) = Inr JUndefined"
    using property_of_ref [OF d2] by (simp add: deleted_key_absent)
  have h: "\<not> obj_has (spread ?sto' (JRef (length sto))) (cfg_key cfg)"
    using spread_of_ref [OF d2] by (simp add: deleted_key_absent)
  show "\<exists>st' sto'.
              updateSubscriptionState st sto cid result = Inr (st', sto')
              \<and> map_option sub_lastValue (tracked st' cid k) = Some v
              \<and> deref sto' result = Some [(k, JRef (length sto))]
              \<and> deref sto' (length sto) = Some (obj_delete (spread sto data) (cfg_key cfg))
              \<and> get_property sto' (JRef (length sto)) (cfg_key cfg) = Inr JUndefined
              \<and> \<not> obj_has (spread sto' (JRef (length sto))) (cfg_key cfg)"
    using upd lv d1 d2 g h by blast
qed

theorem key_injection_round_trip_witness:
  "(\<exists>s. tracked (addSubscription graphql_host (StatefulSubscriptions example_options) ''c1''
                   query_items None None None) ''c1'' ''onItems'' = Some s
         \<and> sub_fields s = [''id'', ''data'', ''offset'']
         \<and> sub_injectedKey s)
   \<and> (\<exists>st' sto'.
         updateSubscriptionState
           (addSubscription graphql_host (StatefulSubscriptions example_options) ''c1''
              query_items None None None) payload_items ''c1'' 0 = Inr (st', sto')
         \<and> map_option sub_lastValue (tracked st' ''c1'' ''onItems'') = Some (JNum 7)
         \<and> deref sto' 0 = Some [(''onItems'', JRef 2)]
         \<and> deref sto' 2 = Some [(''id'', JStr ''x'')])"
proof -
  let ?st0 = "StatefulSubscriptions example_options"
  let ?st1 = "addSubscription graphql_host ?st0 ''c1'' query_items None None None"
  let ?info = "\<lparr> info_name = ''onItems'', info_fields = [''id'', ''data''],
                 info_alias = None, info_params = JObj [] \<rparr>"
  let ?cfg = "\<lparr> cfg_key = ''offset'', cfg_args = None \<rparr>"
  let ?s = "\<lparr> sub_options = \<lparr> opt_name = ''onItems'', opt_key = ''offset'', opt_args = None \<rparr>,
            sub_name = ''onItems'', sub_fields = [''id'', ''data'', ''offset''],
            sub_params = Some (JObj []), sub_lastValue = JNull, sub_alias = None,
            sub_injectedKey = True, sub_id = None, sub_type = ''start'' \<rparr>"
  have e: "extractSubscriptionQueryInfo graphql_host query_items None = Inr (Some ?info)"
    by (rule ex_extract_items)
  have i: "subscription_identifier ?info = ''onItems''"
    by (simp add: subscription_identifier_def)
  have t0: "tracked ?st0 ''c1'' (subscription_identifier ?info) = None"
    by (simp add: tracked_def StatefulSubscriptions_def)
  have c0: "subscriptionsConfig ?st0 (info_name ?info) = Some ?cfg"
    by (simp add: StatefulSubscriptions_def example_options_def)
  have k0: "cfg_key ?cfg \<notin> set (info_fields ?info)" by simp
  have 1: "\<exists>s. tracked ?st1 ''c1'' ''onItems'' = Some s
         \<and> sub_fields s = [''id'', ''data'', ''offset'']
         \<and> sub_injectedKey s"
    using key_injection_round_trip [where h = graphql_host and query = query_items and vars = None
        and info = ?info and st = ?st0 and cid = "''c1''" and cfg = ?cfg and sid = None and ty = None,
        THEN conjunct1]
      e t0 c0 k0 i
    by auto
  have t1: "tracked ?st1 ''c1'' ''onItems'' = Some ?s" by (rule ex_tracked_items)
  have c1: "subscriptionsConfig ?st1 (sub_name ?s) = Some ?cfg"
    using ex_config_items by simp
  have d: "deref payload_items 0 = Some [(''onItems'', JRef 1)]" by code_simp
  have g: "get_property payload_items (JRef 1) (cfg_key ?cfg) = Inr (JNum 7)" by code_simp
  have n: "obj_delete (spread payload_items (JRef 1)) (cfg_key ?cfg) = [(''id'', JStr ''x'')]"
    by code_simp
  have l: "length payload_items = 2" by (simp add: payload_items_def)
  have 2: "\<exists>st' sto'.
         updateSubscriptionState ?st1 payload_items ''c1'' 0 = Inr (st', sto')
         \<and> map_option sub_lastValue (tracked st' ''c1'' ''onItems'') = Some (JNum 7)
         \<and> deref sto' 0 = Some [(''onItems'', JRef 2)]
         \<and> deref sto' 2 = Some [(''id'', JStr ''x'')]"
    using key_injection_round_trip [where st = ?st1 and cid = "''c1''" and k = "''onItems''"
        and s = ?s and cfg = ?cfg and sto = payload_items and result = 0 and data = "JRef 1"
        and v = "JNum 7", THEN conjunct2]
      t1 c1 d g n l
    by auto
  show ?thesis using 1 2 by blast
qed

section \<open>Aliases\<close>

lemma updateSubscriptionState_miss:
  assumes "deref sto result = Some ((r, data) # rest)" and "tracked st cid r = None"
  shows "updateSubscriptionState st sto cid result = Inr (st, sto)"
  using assms(2)
  by (simp add: updateSubscriptionState_def resultInfo_first_key [OF assms(1)] tracked_def
           split: option.splits)

lemma ex_config_feed:
  "subscriptionsConfig
     (addSubscription graphql_host (StatefulSubscriptions example_options) ''c1'' query_feed
        None None None) ''onItems''
   = Some \<lparr> cfg_key = ''offset'', cfg_args = None \<rparr>"
  by code_simp

lemma ex_tracked_feed_plain:
  "tracked (addSubscription graphql_host (StatefulSubscriptions example_options) ''c1'' query_feed
              None None None) ''c1'' ''Feed''
   = Some \<lparr> sub_options = \<lparr> opt_name = ''onItems'', opt_key = ''offset'', opt_args = None \<rparr>,
            sub_name = ''onItems'', sub_fields = [''id'', ''offset''],
            sub_params = Some (JObj []), sub_lastValue = JNull, sub_alias = Some ''Feed'',
            sub_injectedKey = False, sub_id = None, sub_type = ''start'' \<rparr>"
  by code_simp

text \<open>
  Claim C5. The introspector returns the alias and the name of the root field apart. A
  registration whose root field carries an alias tracks the subscription under
  the alias, with the un-aliased field name as root name; the descriptor is looked up by
  that name, so without a descriptor under the name nothing is tracked. A payload whose
  root key is the alias updates the subscription; a payload whose root key is anything
  else, the root field name included, leaves it as it was.
\<close>

theorem alias_identity:
  "(parse h query = Some doc
      \<and> find is_subscription doc
          = Some (OperationDefinition op (Field (Some a) nm args sub # others))
      \<and> extractSubscriptionQueryInfo h query vars = Inr (Some info) \<longrightarrow>
        info_alias info = Some a \<and> info_name info = nm)
   \<and> (extractSubscriptionQueryInfo h query vars = Inr (Some info)
      \<and> info_alias info = Some a \<and> a \<noteq> []
      \<and> tracked st cid a = None \<longrightarrow>
        (\<forall>cfg. subscriptionsConfig st (info_name info) = Some cfg \<longrightarrow>
           (\<exists>s. tracked (addSubscription h st cid query vars sid ty) cid a = Some s
                 \<and> sub_name s = info_name info
                 \<and> sub_alias s = Some a
                 \<and> opt_key (sub_options s) = cfg_key cfg))
        \<and> (subscriptionsConfig st (info_name info) = None \<longrightarrow>
             tracked (addSubscription h st cid query vars sid ty) cid a = None))
   \<and> (tracked st cid a = Some s
        \<and> subscriptionsConfig st (sub_name s) = Some cfg
        \<and> deref sto result = Some [(a, data)]
        \<and> get_property sto data (cfg_key cfg) = Inr v
        \<and> v \<noteq> JUndefined \<longrightarrow>
          (\<exists>st' sto'. updateSubscriptionState st sto cid result = Inr (st', sto')
                       \<and> tracked st' cid a = Some (s\<lparr> sub_lastValue := v \<rparr>)))
   \<and> (deref sto result = Some [(r, data)] \<and> r \<noteq> a
        \<and> updateSubscriptionState st sto cid result = Inr (st', sto') \<longrightarrow>
          tracked st' cid a = tracked st cid a)"
proof (intro conjI impI allI)
  assume "parse h query = Some doc
      \<and> find is_subscription doc
          = Some (OperationDefinition op (Field (Some a) nm args sub # others))
      \<and> extractSubscriptionQueryInfo h query vars = Inr (Some info)"
  then show "info_alias info = Some a" and "info_name info = nm"
    using extractSubscriptionQueryInfo_field_info(1,2) [of h query doc op "Some a" nm args sub
        others vars info]
    by simp_all
next
  fix cfg
  assume a: "extractSubscriptionQueryInfo h query vars = Inr (Some info)
      \<and> info_alias info = Some a \<and> a \<noteq> []
      \<and> tracked st cid a = None"
    and cfg: "subscriptionsConfig st (info_name info) = Some cfg"
  have i: "subscription_identifier info = a"
    using a by (simp add: subscription_identifier_def)
  have "tracked (addSubscription h st cid query vars sid ty) cid a
          = Some (new_subscription h info cfg vars sid ty)"
    using tracked_created [of h query vars info st cid cfg sid ty] a cfg i by simp
  moreover have "sub_name (new_subscription h info cfg vars sid ty) = info_name info"
    "sub_alias (new_subscription h info cfg vars sid ty) = Some a"
    "opt_key (sub_options (new_subscription h info cfg vars sid ty)) = cfg_key cfg"
    using a by (simp_all add: new_subscription_def Let_def)
  ultimately show "\<exists>s. tracked (addSubscription h st cid query vars sid ty) cid a = Some s
                 \<and> sub_name s = info_name info
                 \<and> sub_alias s = Some a
                 \<and> opt_key (sub_options s) = cfg_key cfg"
    by blast
next
  assume a: "extractSubscriptionQueryInfo h query vars = Inr (Some info)
      \<and> info_alias info = Some a \<and> a \<noteq> []
      \<and> tracked st cid a = None"
    and none: "subscriptionsConfig st (info_name info) = None"
  have "addSubscription h st cid query vars sid ty
          = st\<lparr> clients := (clients st)(cid \<mapsto> client_or_new st cid) \<rparr>"
    using a none by (simp add: addSubscription_unconfigured)
  then show "tracked (addSubscription h st cid query vars sid ty) cid a = None"
    using a by (simp add: tracked_touch)
next
  assume b: "tracked st cid a = Some s
        \<and> subscriptionsConfig st (sub_name s) = Some cfg
        \<and> deref sto result = Some [(a, data)]
        \<and> get_property sto data (cfg_key cfg) = Inr v
        \<and> v \<noteq> JUndefined"
  then obtain client where c: "clients st cid = Some client"
    and s: "subs_get (subscriptions client) a = Some s"
    by (auto simp: tracked_def split: option.splits)
  have root: "deref sto result = Some [(a, data)]" using b by simp
  from updateSubscriptionState_hit [OF c root s, of cfg v] b
  obtain sto' where
    "updateSubscriptionState st sto cid result =
       Inr (st\<lparr> clients := (clients st)(cid \<mapsto>
                  client\<lparr> subscriptions :=
                    subs_set (subscriptions client) a (s\<lparr> sub_lastValue := v \<rparr>) \<rparr>) \<rparr>, sto')"
    by simp
  then show "\<exists>st' sto'. updateSubscriptionState st sto cid result = Inr (st', sto')
                       \<and> tracked st' cid a = Some (s\<lparr> sub_lastValue := v \<rparr>)"
    using tracked_after_hit [OF c, of a "s\<lparr> sub_lastValue := v \<rparr>"] by blast
next
  assume "deref sto result = Some [(r, data)] \<and> r \<noteq> a
        \<and> updateSubscriptionState st sto cid result = Inr (st', sto')"
  then show "tracked st' cid a = tracked st cid a"
    using updateSubscriptionState_other_key [of st sto cid result st' sto' r data "[]" a cid]
    by simp
qed

theorem alias_identity_witness:
  "parse graphql_host query_feed = Some doc_feed
   \<and> extractSubscriptionQueryInfo graphql_host query_feed None
       = Inr (Some \<lparr> info_name = ''onItems'', info_fields = [''id'', ''offset''],
                     info_alias = Some ''Feed'', info_params = JObj [] \<rparr>)
   \<and> (\<exists>s. tracked (addSubscription graphql_host (StatefulSubscriptions example_options) ''c1''
                   query_feed None None None) ''c1'' ''Feed'' = Some s
         \<and> sub_name s = ''onItems'' \<and> sub_alias s = Some ''Feed'')
   \<and> (\<exists>st' sto'.
         updateSubscriptionState
           (addSubscription graphql_host (StatefulSubscriptions example_options) ''c1''
              query_feed None None None) payload_feed ''c1'' 0 = Inr (st', sto')
         \<and> map_option sub_lastValue (tracked st' ''c1'' ''Feed'') = Some (JNum 7))
   \<and> (\<exists>st' sto'.
         updateSubscriptionState
           (addSubscription graphql_host (StatefulSubscriptions example_options) ''c1''
              query_feed None None None) payload_items ''c1'' 0 = Inr (st', sto')
         \<and> map_option sub_lastValue (tracked st' ''c1'' ''Feed'') = Some JNull)"
proof -
  let ?st0 = "StatefulSubscriptions example_options"
  let ?st1 = "addSubscription graphql_host ?st0 ''c1'' query_feed None None None"
  let ?info = "\<lparr> info_name = ''onItems'', info_fields = [''id'', ''offset''],
                 info_alias = Some ''Feed'', info_params = JObj [] \<rparr>"
  let ?cfg = "\<lparr> cfg_key = ''offset'', cfg_args = None \<rparr>"
  let ?s = "\<lparr> sub_options = \<lparr> opt_name = ''onItems'', opt_key = ''offset'', opt_args = None \<rparr>,
            sub_name = ''onItems'', sub_fields = [''id'', ''offset''],
            sub_params = Some (JObj []), sub_lastValue = JNull, sub_alias = Some ''Feed'',
            sub_injectedKey = False, sub_id = None, sub_type = ''start'' \<rparr>"
  have e: "extractSubscriptionQueryInfo graphql_host query_feed None = Inr (Some ?info)"
    by (rule ex_extract_feed)
  have t0: "tracked ?st0 ''c1'' ''Feed'' = None"
    by (simp add: tracked_def StatefulSubscriptions_def)
  have c0: "subscriptionsConfig ?st0 (info_name ?info) = Some ?cfg"
    by (simp add: StatefulSubscriptions_def example_options_def)
  have 1: "\<exists>s. tracked ?st1 ''c1'' ''Feed'' = Some s
         \<and> sub_name s = ''onItems'' \<and> sub_alias s = Some ''Feed''"
    using alias_identity [where h = graphql_host and query = query_feed and vars = None
        and info = ?info and a = "''Feed''" and st = ?st0 and cid = "''c1''" and sid = None
        and ty = None, THEN conjunct2, THEN conjunct1] e t0 c0
    by auto
  have t1: "tracked ?st1 ''c1'' ''Feed'' = Some ?s" by (rule ex_tracked_feed_plain)
  have c1: "subscriptionsConfig ?st1 (sub_name ?s) = Some ?cfg"
    using ex_config_feed by simp
  have d: "deref payload_feed 0 = Some [(''Feed'', JRef 1)]" by code_simp
  have g: "get_property payload_feed (JRef 1) (cfg_key ?cfg) = Inr (JNum 7)" by code_simp
  have 2: "\<exists>st' sto'.
         updateSubscriptionState ?st1 payload_feed ''c1'' 0 = Inr (st', sto')
         \<and> map_option sub_lastValue (tracked st' ''c1'' ''Feed'') = Some (JNum 7)"
    using alias_identity [where a = "''Feed''" and st = ?st1 and cid = "''c1''" and s = ?s
        and cfg = ?cfg and sto = payload_feed and result = 0 and data = "JRef 1" and v = "JNum 7",
        THEN conjunct2, THEN conjunct2, THEN conjunct1] t1 c1 d g
    by auto
  have d': "deref payload_items 0 = Some [(''onItems'', JRef 1)]" by code_simp
  have m: "tracked ?st1 ''c1'' ''onItems'' = None" by code_simp
  have u: "updateSubscriptionState ?st1 payload_items ''c1'' 0 = Inr (?st1, payload_items)"
    using d' m by (rule updateSubscriptionState_miss)
  have 3: "\<exists>st' sto'.
         updateSubscriptionState ?st1 payload_items ''c1'' 0 = Inr (st', sto')
         \<and> map_option sub_lastValue (tracked st' ''c1'' ''Feed'') = Some JNull"
    using alias_identity [where a = "''Feed''" and st = ?st1 and cid = "''c1''"
        and sto = payload_items and result = 0 and data = "JRef 1" and r = "''onItems''"
        and st' = ?st1 and sto' = payload_items, THEN conjunct2, THEN conjunct2, THEN conjunct2]
      d' u t1
    by auto
  have p: "parse graphql_host query_feed = Some doc_feed" by code_simp
  have f: "find is_subscription doc_feed
             = Some (OperationDefinition Subscription
                       (Field (Some ''Feed'') ''onItems'' []
                          (Some [Field None ''id'' [] None, Field None ''offset'' [] None]) # []))"
    by (simp add: doc_feed_def is_subscription_def)
  have 0: "info_alias ?info = Some ''Feed'' \<and> info_name ?info = ''onItems''"
    using alias_identity [where h = graphql_host and query = query_feed and doc = doc_feed
        and op = Subscription and a = "''Feed''" and nm = "''onItems''" and args = "[]"
        and sub = "Some [Field None ''id'' [] None, Field None ''offset'' [] None]"
        and others = "[]" and vars = None and info = ?info, THEN conjunct1] p f e
    by blast
  show ?thesis using p e 0 1 2 3 by blast
qed

section \<open>The payload after the key is stripped\<close>

lemma obj_delete_filter: "obj_delete ps k = filter (\<lambda>entry. fst entry \<noteq> k) ps"
  by (auto simp: obj_delete_def AList.delete_eq intro: filter_cong)

text \<open>
  Claim C10. When \<^verbatim>\<open>updateSubscriptionState\<close> strips an injected key, the data object that
  the payload referred to is not written to: it is the same object after the call and
  still has the key field. The payload's root key refers to a new object, whose fields are
  those of the original without the key field, with the same values and in the same order,
  and no other object of the store changes.
\<close>

theorem strip_installs_copy:
  "tracked st cid k = Some s
   \<and> sub_injectedKey s
   \<and> subscriptionsConfig st (sub_name s) = Some cfg
   \<and> deref sto result = Some ((k, JRef d) # rest)
   \<and> d \<noteq> result
   \<and> deref sto d = Some original
   \<and> obj_get original (cfg_key cfg) \<noteq> JUndefined \<longrightarrow>
     (\<exists>st' sto'.
         updateSubscriptionState st sto cid result = Inr (st', sto')
         \<and> deref sto' d = Some original
         \<and> obj_has original (cfg_key cfg)
         \<and> deref sto' result = Some ((k, JRef (length sto)) # rest)
         \<and> length sto \<noteq> d
         \<and> deref sto' (length sto)
             = Some (filter (\<lambda>entry. fst entry \<noteq> cfg_key cfg) original)
         \<and> (\<forall>f. f \<noteq> cfg_key cfg \<longrightarrow>
               get_property sto' (JRef (length sto)) f = get_property sto (JRef d) f)
         \<and> get_property sto' (JRef (length sto)) (cfg_key cfg) = Inr JUndefined
         \<and> (\<forall>a. a < length sto \<and> a \<noteq> result \<longrightarrow> deref sto' a = deref sto a))"
proof
  assume a: "tracked st cid k = Some s
   \<and> sub_injectedKey s
   \<and> subscriptionsConfig st (sub_name s) = Some cfg
   \<and> deref sto result = Some ((k, JRef d) # rest)
   \<and> d \<noteq> result
   \<and> deref sto d = Some original
   \<and> obj_get original (cfg_key cfg) \<noteq> JUndefined"
  then obtain client where c: "clients st cid = Some client"
    and s: "subs_get (subscriptions client) k = Some s"
    by (auto simp: tracked_def split: option.splits)
  have root: "deref sto result = Some ((k, JRef d) # rest)" using a by simp
  have orig: "deref sto d = Some original" using a by simp
  have dlt: "d < length sto" using orig by (simp add: deref_bound)
  let ?v = "obj_get original (cfg_key cfg)"
  let ?new = "obj_delete (spread sto (JRef d)) (cfg_key cfg)"
  let ?st' = "st\<lparr> clients := (clients st)(cid \<mapsto>
                      client\<lparr> subscriptions :=
                        subs_set (subscriptions client) k (s\<lparr> sub_lastValue := ?v \<rparr>) \<rparr>) \<rparr>"
  let ?sto' = "(sto @ [?new])[result := (k, JRef (length sto)) # rest]"
  have gp: "get_property sto (JRef d) (cfg_key cfg) = Inr ?v"
    using orig by (rule property_of_ref)
  have upd: "updateSubscriptionState st sto cid result = Inr (?st', ?sto')"
    using updateSubscriptionState_hit [OF c root s, of cfg ?v] a gp by simp
  have new: "?new = filter (\<lambda>entry. fst entry \<noteq> cfg_key cfg) original"
    using spread_of_ref [OF orig] by (simp add: obj_delete_filter)
  have 1: "deref ?sto' d = Some original"
    using store_after_strip(3) [OF root, of d] dlt a by simp
  have 2: "obj_has original (cfg_key cfg)"
    using a by (auto simp: obj_has_def obj_get_def split: option.splits)
  have 3: "deref ?sto' result = Some ((k, JRef (length sto)) # rest)"
    using root by (rule store_after_strip(1))
  have 4: "length sto \<noteq> d" using dlt by simp
  have 5: "deref ?sto' (length sto) = Some (filter (\<lambda>entry. fst entry \<noteq> cfg_key cfg) original)"
    using store_after_strip(2) [OF root, of ?new] new by simp
  have copy: "deref ?sto' (length sto) = Some (obj_delete original (cfg_key cfg))"
    using 5 by (simp add: obj_delete_filter)
  have 6: "\<forall>f. f \<noteq> cfg_key cfg \<longrightarrow>
               get_property ?sto' (JRef (length sto)) f = get_property sto (JRef d) f"
    using property_of_ref [OF copy] property_of_ref [OF orig]
    by (simp add: deleted_key_others)
  have 7: "get_property ?sto' (JRef (length sto)) (cfg_key cfg) = Inr JUndefined"
    using property_of_ref [OF copy] by (simp add: deleted_key_absent)
  have 8: "\<forall>a. a < length sto \<and> a \<noteq> result \<longrightarrow> deref ?sto' a = deref sto a"
    using store_after_strip(3) [OF root] by simp
  show "\<exists>st' sto'.
         updateSubscriptionState st sto cid result = Inr (st', sto')
         \<and> deref sto' d = Some original
         \<and> obj_has original (cfg_key cfg)
         \<and> deref sto' result = Some ((k, JRef (length sto)) # rest)
         \<and> length sto \<noteq> d
         \<and> deref sto' (length sto)
             = Some (filter (\<lambda>entry. fst entry \<noteq> cfg_key cfg) original)
         \<and> (\<forall>f. f \<noteq> cfg_key cfg \<longrightarrow>
               get_property sto' (JRef (length sto)) f = get_property sto (JRef d) f)
         \<and> get_property sto' (JRef (length sto)) (cfg_key cfg) = Inr JUndefined
         \<and> (\<forall>a. a < length sto \<and> a \<noteq> result \<longrightarrow> deref sto' a = deref sto a)"
    using upd 1 2 3 4 5 6 7 8 by blast
qed

theorem strip_installs_copy_witness:
  "\<exists>st' sto'.
     updateSubscriptionState
       (addSubscription graphql_host (StatefulSubscriptions example_options) ''c1''
          query_items None None None) payload_items ''c1'' 0 = Inr (st', sto')
     \<and> deref sto' 1 = Some [(''id'', JStr ''x''), (''offset'', JNum 7)]
     \<and> deref sto' 0 = Some [(''onItems'', JRef 2)]
     \<and> deref sto' 2 = Some [(''id'', JStr ''x'')]"
proof -
  let ?st1 = "addSubscription graphql_host (StatefulSubscriptions example_options) ''c1''
          query_items None None None"
  let ?cfg = "\<lparr> cfg_key = ''offset'', cfg_args = None \<rparr>"
  let ?s = "\<lparr> sub_options = \<lparr> opt_name = ''onItems'', opt_key = ''offset'', opt_args = None \<rparr>,
            sub_name = ''onItems'', sub_fields = [''id'', ''data'', ''offset''],
            sub_params = Some (JObj []), sub_lastValue = JNull, sub_alias = None,
            sub_injectedKey = True, sub_id = None, sub_type = ''start'' \<rparr>"
  have t1: "tracked ?st1 ''c1'' ''onItems'' = Some ?s" by (rule ex_tracked_items)
  have c1: "subscriptionsConfig ?st1 (sub_name ?s) = Some ?cfg"
    using ex_config_items by simp
  have d0: "deref payload_items 0 = Some [(''onItems'', JRef 1)]" by code_simp
  have d1: "deref payload_items 1 = Some [(''id'', JStr ''x''), (''offset'', JNum 7)]" by code_simp
  have l: "length payload_items = 2" by (simp add: payload_items_def)
  show ?thesis
    using strip_installs_copy [where st = ?st1 and cid = "''c1''" and k = "''onItems''" and s = ?s
        and cfg = ?cfg and sto = payload_items and result = 0 and d = 1 and rest = "[]"
        and original = "[(''id'', JStr ''x''), (''offset'', JNum 7)]"]
      t1 c1 d0 d1 l
    by (auto simp: obj_get_def)
qed

end
